theory Spec2Isabelle
  imports Complex_Main "HOL-Library.Sublist"
begin

section \<open>The chat widget (src/frontend/ai-agent-frontend/src/App.jsx)\<close>

subsection \<open>JavaScript values\<close>

text \<open>
  A JavaScript string is a sequence of UTF-16 code units. The literals of the source are
  ASCII, so \<open>str\<close> embeds them unit by unit.
\<close>

type_synonym jsstring = "nat list"

definition str :: "string \<Rightarrow> jsstring" where
  "str s = map of_char s"

text \<open>
  The values that flow through the widget: what \<open>response.json()\<close> yields (null, booleans,
  numbers, strings, arrays, objects) and \<open>undefined\<close>, which a read of a missing property
  gives. A number is held by its real value (the infinities that JSON.parse gives for
  literals out of range are left out). An object lists its members as parsed.
\<close>

datatype jsval =
    JUndefined
  | JNull
  | JBool bool
  | JNum real
  | JStr jsstring
  | JArr "jsval list"
  | JObj "(jsstring \<times> jsval) list"

text \<open>ToBoolean, as \<open>!x\<close>, \<open>x || y\<close> and \<open>x && y\<close> apply it.\<close>

fun truthy :: "jsval \<Rightarrow> bool" where
  "truthy JUndefined = False"
| "truthy JNull = False"
| "truthy (JBool b) = b"
| "truthy (JNum n) = (n \<noteq> 0)"
| "truthy (JStr s) = (s \<noteq> [])"
| "truthy (JArr xs) = True"
| "truthy (JObj kvs) = True"

text \<open>
  \<open>v.k\<close> for a key \<open>k\<close> that no built-in prototype defines (\<open>response\<close>, \<open>steps\<close>,
  \<open>tokens_used\<close>, \<open>status\<close>, \<open>action_type\<close>, \<open>description\<close>, \<open>output_data\<close>: every key the
  source reads from a response). \<open>None\<close> is the TypeError of reading a property of
  \<open>null\<close> or \<open>undefined\<close>. JSON.parse keeps the last of two members with one key.
\<close>

fun js_get :: "jsval \<Rightarrow> jsstring \<Rightarrow> jsval option" where
  "js_get JUndefined k = None"
| "js_get JNull k = None"
| "js_get (JObj kvs) k = (case map_of (rev kvs) k of None \<Rightarrow> Some JUndefined | Some v \<Rightarrow> Some v)"
| "js_get v k = Some JUndefined"

text \<open>\<open>v.length\<close>: an own property of strings and arrays, a member like any other of an object.\<close>

fun js_length :: "jsval \<Rightarrow> jsval option" where
  "js_length (JStr s) = Some (JNum (real (length s)))"
| "js_length (JArr xs) = Some (JNum (real (length xs)))"
| "js_length v = js_get v (str ''length'')"

text \<open>
  \<open>v > 0\<close>. \<open>undefined\<close> converts to NaN and \<open>null\<close> to 0, a boolean to 0 or 1. The
  conversion of a string, an array or an object to a number is not modelled: \<open>None\<close>.
\<close>

fun js_gt0 :: "jsval \<Rightarrow> bool option" where
  "js_gt0 JUndefined = Some False"
| "js_gt0 JNull = Some False"
| "js_gt0 (JBool b) = Some b"
| "js_gt0 (JNum n) = Some (0 < n)"
| "js_gt0 v = None"

text \<open>
  String.prototype.trim removes WhiteSpace and LineTerminator code units from both ends
  (ECMAScript: TAB, VT, FF, SP, NBSP, ZWNBSP, the Unicode space separators, LF, CR, LS, PS).
\<close>

definition isWhiteSpace :: "nat \<Rightarrow> bool" where
  "isWhiteSpace c \<longleftrightarrow>
     c \<in> {9, 10, 11, 12, 13, 32, 160, 5760, 8232, 8233, 8239, 8287, 12288, 65279}
     \<or> (8192 \<le> c \<and> c \<le> 8202)"

definition trim :: "jsstring \<Rightarrow> jsstring" where
  "trim s = rev (dropWhile isWhiteSpace (rev (dropWhile isWhiteSpace s)))"

subsection \<open>Component state\<close>

text \<open>
  A message object. A property that an object literal of the source does not set reads
  as \<open>undefined\<close>, so it is held as \<open>JUndefined\<close>. \<open>timestamp\<close> is the time value of the
  \<open>Date\<close>.
\<close>

record message =
  id' :: nat
  role :: jsstring
  content :: jsval
  timestamp :: nat
  steps :: jsval
  tokensUsed :: jsval
  status :: jsval
  isError :: jsval

text \<open>The four \<open>useState\<close> cells; \<open>showSteps\<close> is an object keyed by message id.\<close>

record state =
  messages :: "message list"
  inputMessage :: jsstring
  isLoading :: bool
  showSteps :: "nat \<rightharpoonup> bool"

definition initial :: "nat \<Rightarrow> state" where
  "initial t0 =
     \<lparr>messages =
        [\<lparr>id' = 1,
          role = str ''assistant'',
          content = JStr (str ''Hello! I'm your AI agent. I can help you with various tasks including web search, document analysis, and more. How can I assist you today?''),
          timestamp = t0,
          steps = JArr [],
          tokensUsed = JUndefined,
          status = JUndefined,
          isError = JUndefined\<rparr>],
      inputMessage = [],
      isLoading = False,
      showSteps = Map.empty\<rparr>"

subsection \<open>sendMessage\<close>

text \<open>
  The arguments of the \<open>fetch\<close> call. \<open>body\<close> is the value that the body text,
  \<open>JSON.stringify({messages: ...})\<close>, denotes; the text itself is not modelled.
\<close>

record request =
  url :: jsstring
  http_method :: jsstring
  headers :: "(jsstring \<times> jsstring) list"
  body :: jsval

text \<open>
  One element of the array: \<open>{role: msg.role, content: msg.content}\<close> as serialised.
  JSON.stringify leaves out a member whose value is \<open>undefined\<close>, which \<open>msg.content\<close> can
  be (\<open>msg.role\<close> is always a string).
\<close>

definition wire :: "message \<Rightarrow> jsval" where
  "wire msg =
     JObj ((str ''role'', JStr (role msg))
           # (if content msg = JUndefined then [] else [(str ''content'', content msg)]))"

definition chat_request :: "message list \<Rightarrow> request" where
  "chat_request ms =
     \<lparr>url = str ''http://localhost:8000/chat'',
      http_method = str ''POST'',
      headers = [(str ''Content-Type'', str ''application/json'')],
      body = JObj [(str ''messages'', JArr (map wire ms))]\<rparr>"

text \<open>The \<open>userMessage\<close> of the source, for the text of the input field.\<close>

definition userMessage :: "nat \<Rightarrow> nat \<Rightarrow> jsstring \<Rightarrow> message" where
  "userMessage now ts input =
     \<lparr>id' = now,
      role = str ''user'',
      content = JStr input,
      timestamp = ts,
      steps = JArr [],
      tokensUsed = JUndefined,
      status = JUndefined,
      isError = JUndefined\<rparr>"

text \<open>
  \<open>sendMessage\<close> up to its first \<open>await\<close>: the guard, the three state updates and the
  \<open>fetch\<close> call. \<open>now\<close> is what \<open>Date.now()\<close> returns and \<open>ts\<close> the time of \<open>new Date()\<close>.
  The result is the new state and the request issued, if any. The handler closes over the
  state of the render it belongs to; React renders again between two user events, so
  that is the state passed here.
\<close>

definition sendMessage_begin :: "nat \<Rightarrow> nat \<Rightarrow> state \<Rightarrow> state \<times> request option" where
  "sendMessage_begin now ts s =
     (if trim (inputMessage s) = [] \<or> isLoading s then (s, None)
      else
        (s\<lparr>messages := messages s @ [userMessage now ts (inputMessage s)],
           inputMessage := [],
           isLoading := True\<rparr>,
         Some (chat_request (messages s @ [userMessage now ts (inputMessage s)]))))"

text \<open>
  How the \<open>fetch\<close> ends: it rejects (with an error whose message is given), or it resolves
  to a response with a status code whose \<open>json()\<close> rejects (message given) or yields a value.
\<close>

datatype body_result = JsonRejected jsstring | Json jsval

datatype fetch_result = Rejected jsstring | Response nat body_result

definition ok :: "nat \<Rightarrow> bool" where
  "ok code \<longleftrightarrow> 200 \<le> code \<and> code \<le> 299"

text \<open>
  The message of the TypeError thrown by \<open>data.response\<close> when \<open>data\<close> is \<open>null\<close>; the
  wording is the engine's (V8's here).
\<close>

definition null_read_message :: jsstring where
  "null_read_message = str ''Cannot read properties of null (reading 'response')''"

text \<open>
  The \<open>assistantMessage\<close> of the source, from the four properties read off \<open>data\<close>;
  \<open>data.steps || []\<close> is the third line from the end.
\<close>

definition assistantMessage :: "jsval \<Rightarrow> jsval \<Rightarrow> jsval \<Rightarrow> jsval \<Rightarrow> nat \<Rightarrow> nat \<Rightarrow> message" where
  "assistantMessage response data_steps tokens_used data_status now ts =
     \<lparr>id' = now + 1,
      role = str ''assistant'',
      content = response,
      timestamp = ts,
      steps = (if truthy data_steps then data_steps else JArr []),
      tokensUsed = tokens_used,
      status = data_status,
      isError = JUndefined\<rparr>"

text \<open>
  The \<open>try\<close> block after the \<open>fetch\<close>: \<open>Inl\<close> is the message of the error thrown, \<open>Inr\<close> the
  \<open>assistantMessage\<close> built.
\<close>

definition try_block :: "fetch_result \<Rightarrow> nat \<Rightarrow> nat \<Rightarrow> jsstring + message" where
  "try_block r now ts =
     (case r of
        Rejected m \<Rightarrow> Inl m
      | Response code b \<Rightarrow>
          if \<not> ok code then Inl (str ''Failed to get response'')
          else
            (case b of
               JsonRejected m \<Rightarrow> Inl m
             | Json data \<Rightarrow>
                 (case (js_get data (str ''response''), js_get data (str ''steps''),
                        js_get data (str ''tokens_used''), js_get data (str ''status'')) of
                    (Some response, Some data_steps, Some tokens_used, Some data_status) \<Rightarrow>
                      Inr (assistantMessage response data_steps tokens_used data_status now ts)
                  | _ \<Rightarrow> Inl null_read_message)))"

definition errorMessage :: "jsstring \<Rightarrow> nat \<Rightarrow> nat \<Rightarrow> message" where
  "errorMessage m now ts =
     \<lparr>id' = now + 1,
      role = str ''assistant'',
      content = JStr (str ''Sorry, I encountered an error: '' @ m),
      timestamp = ts,
      steps = JArr [],
      tokensUsed = JUndefined,
      status = JUndefined,
      isError = JBool True\<rparr>"

text \<open>
  \<open>sendMessage\<close> from the settling of the \<open>fetch\<close> on: \<open>try\<close>, \<open>catch\<close>, \<open>finally\<close>. Both
  \<open>setMessages\<close> calls append to the list of the moment (\<open>prev\<close>).
\<close>

definition sendMessage_finish :: "fetch_result \<Rightarrow> nat \<Rightarrow> nat \<Rightarrow> state \<Rightarrow> state" where
  "sendMessage_finish r now ts s =
     (case try_block r now ts of
        Inr a \<Rightarrow>
          s\<lparr>messages := messages s @ [a], isLoading := False\<rparr>
      | Inl m \<Rightarrow>
          s\<lparr>messages := messages s @ [errorMessage m now ts], isLoading := False\<rparr>)"

subsection \<open>The other handlers\<close>

definition handleKeyPress :: "jsstring \<Rightarrow> bool \<Rightarrow> nat \<Rightarrow> nat \<Rightarrow> state \<Rightarrow> state \<times> request option" where
  "handleKeyPress key shiftKey now ts s =
     (if key = str ''Enter'' \<and> \<not> shiftKey then sendMessage_begin now ts s else (s, None))"

definition lookupShow :: "(nat \<rightharpoonup> bool) \<Rightarrow> nat \<Rightarrow> jsval" where
  "lookupShow sh i = (case sh i of None \<Rightarrow> JUndefined | Some b \<Rightarrow> JBool b)"

definition toggleSteps :: "nat \<Rightarrow> state \<Rightarrow> state" where
  "toggleSteps messageId s =
     s\<lparr>showSteps := (showSteps s)(messageId \<mapsto> \<not> truthy (lookupShow (showSteps s) messageId))\<rparr>"

definition setInputMessage :: "jsstring \<Rightarrow> state \<Rightarrow> state" where
  "setInputMessage v s = s\<lparr>inputMessage := v\<rparr>"

datatype icon = Settings | Search | Bot | FileText | Send

definition getStepIcon :: "jsval \<Rightarrow> icon" where
  "getStepIcon actionType =
     (if actionType = JStr (str ''plan'') then Settings
      else if actionType = JStr (str ''retrieve'') then Search
      else if actionType = JStr (str ''act'') then Bot
      else if actionType = JStr (str ''verify'') then FileText
      else if actionType = JStr (str ''respond'') then Send
      else Bot)"

definition getStepColor :: "jsval \<Rightarrow> jsstring" where
  "getStepColor st =
     (if st = JStr (str ''completed'') then str ''bg-green-100 text-green-800 border-green-200''
      else if st = JStr (str ''running'') then str ''bg-blue-100 text-blue-800 border-blue-200''
      else if st = JStr (str ''failed'') then str ''bg-red-100 text-red-800 border-red-200''
      else str ''bg-gray-100 text-gray-800 border-gray-200'')"

subsection \<open>The rendered tree\<close>

text \<open>
  What a render of the component shows, as far as the messages and their step traces go:
  the element tree that \<open>App\<close> returns, once React has accepted its children. A render
  that throws, in \<open>App\<close> or in React, is \<open>Throws\<close>; \<open>Unmodelled\<close> marks the one comparison left
  out of \<open>js_gt0\<close>.
\<close>

datatype 'a rendered = View 'a | Throws | Unmodelled

text \<open>
  What React accepts where the source writes \<open>{value}\<close> between tags: a string or a number
  (shown as text), a boolean, \<open>null\<close> or \<open>undefined\<close> (shown as nothing), an array of such
  children; for a plain object it throws (Objects are not valid as a React child).
\<close>

fun valid_child :: "jsval \<Rightarrow> bool" where
  "valid_child (JObj kvs) = False"
| "valid_child (JArr xs) = (\<forall>x\<in>set xs. valid_child x)"
| "valid_child v = True"

text \<open>
  The value of \<open>c && <element>\<close> in JSX: the element when \<open>c\<close> is truthy, else the falsy
  value of \<open>c\<close> itself.
\<close>

datatype 'a child = Elem 'a | Falsy jsval

record step_view =
  sv_icon :: icon
  sv_action_type :: jsval
  sv_badge_class :: jsstring
  sv_status :: jsval
  sv_description :: jsval
  sv_details :: "jsval child"

text \<open>
  One entry of the step panel: the icon, \<open>{step.action_type}\<close>, the badge with
  \<open>{step.status}\<close>, \<open>{step.description}\<close>, and \<open>sv_details\<close>, the \<open>details\<close> element whose \<open>pre\<close>
  holds \<open>JSON.stringify(step.output_data, null, 2)\<close> (the value is kept, not its text, which
  is a string whatever the value). Reading a property of a \<open>null\<close> step throws.
\<close>

definition render_step :: "jsval \<Rightarrow> step_view rendered" where
  "render_step step =
     (case (js_get step (str ''action_type''), js_get step (str ''status''),
            js_get step (str ''description''), js_get step (str ''output_data'')) of
        (Some action_type, Some st, Some description, Some output_data) \<Rightarrow>
          if valid_child action_type \<and> valid_child st \<and> valid_child description then
            View \<lparr>sv_icon = getStepIcon action_type,
                  sv_action_type = action_type,
                  sv_badge_class = str ''text-xs '' @ getStepColor st,
                  sv_status = st,
                  sv_description = description,
                  sv_details = (if truthy output_data then Elem output_data else Falsy output_data)\<rparr>
          else Throws
      | _ \<Rightarrow> Throws)"

text \<open>\<open>message.steps.map(...)\<close> over an array: the first step that throws ends the render.\<close>

fun render_steps :: "jsval list \<Rightarrow> step_view list rendered" where
  "render_steps [] = View []"
| "render_steps (step # rest) =
     (case render_step step of
        View v \<Rightarrow> (case render_steps rest of View vs \<Rightarrow> View (v # vs) | Throws \<Rightarrow> Throws | Unmodelled \<Rightarrow> Unmodelled)
      | Throws \<Rightarrow> Throws
      | Unmodelled \<Rightarrow> Unmodelled)"

text \<open>\<open>message.steps && message.steps.length > 0\<close>, the condition both step elements share.\<close>

definition has_steps :: "jsval \<Rightarrow> jsval rendered" where
  "has_steps v =
     (if \<not> truthy v then View v
      else
        (case js_length v of
           None \<Rightarrow> Throws
         | Some n \<Rightarrow> (case js_gt0 n of None \<Rightarrow> Unmodelled | Some b \<Rightarrow> View (JBool b))))"

record toggle_view =
  tv_label :: jsstring
  tv_count :: jsval

text \<open>
  The button \<open>Show Steps (n)\<close> / \<open>Hide Steps (n)\<close> of a message, \<open>n\<close> being
  \<open>{message.steps.length}\<close>.
\<close>

definition render_toggle :: "(nat \<rightharpoonup> bool) \<Rightarrow> message \<Rightarrow> toggle_view child rendered" where
  "render_toggle sh m =
     (case has_steps (steps m) of
        View c \<Rightarrow>
          if truthy c then
            (case js_length (steps m) of
               None \<Rightarrow> Throws
             | Some n \<Rightarrow>
                 if valid_child n then
                   View (Elem \<lparr>tv_label = (if truthy (lookupShow sh (id' m)) then str ''Hide''
                                            else str ''Show''),
                               tv_count = n\<rparr>)
                 else Throws)
          else View (Falsy c)
      | Throws \<Rightarrow> Throws
      | Unmodelled \<Rightarrow> Unmodelled)"

text \<open>
  The step panel: \<open>showSteps[message.id] && message.steps && message.steps.length > 0 && (...)\<close>.
  A value that is not an array has no callable \<open>map\<close>.
\<close>

definition render_panel :: "(nat \<rightharpoonup> bool) \<Rightarrow> message \<Rightarrow> step_view list child rendered" where
  "render_panel sh m =
     (if \<not> truthy (lookupShow sh (id' m)) then View (Falsy (lookupShow sh (id' m)))
      else
        (case has_steps (steps m) of
           View c \<Rightarrow>
             if truthy c then
               (case steps m of
                  JArr xs \<Rightarrow>
                    (case render_steps xs of
                       View vs \<Rightarrow> View (Elem vs)
                     | Throws \<Rightarrow> Throws
                     | Unmodelled \<Rightarrow> Unmodelled)
                | _ \<Rightarrow> Throws)
             else View (Falsy c)
         | Throws \<Rightarrow> Throws
         | Unmodelled \<Rightarrow> Unmodelled))"

record message_view =
  mv_key :: nat
  mv_user :: bool
  mv_error :: bool
  mv_content :: jsval
  mv_time :: nat
  mv_tokens :: "jsval child"
  mv_toggle :: "toggle_view child"
  mv_panel :: "step_view list child"

text \<open>
  The badge \<open>{message.tokensUsed && (<Badge>{message.tokensUsed} tokens</Badge>)}\<close>: a
  truthy value is itself the child of the badge.
\<close>

definition render_tokens :: "message \<Rightarrow> jsval child rendered" where
  "render_tokens m =
     (if truthy (tokensUsed m) then
        (if valid_child (tokensUsed m) then View (Elem (tokensUsed m)) else Throws)
      else View (Falsy (tokensUsed m)))"

text \<open>
  One message bubble: its key, its side (\<open>message.role === 'user'\<close>), the error colours
  (\<open>message.isError\<close> on the assistant's side), the text \<open>{message.content}\<close>, the time, the
  token badge, the toggle and the panel.
\<close>

definition render_message :: "(nat \<rightharpoonup> bool) \<Rightarrow> message \<Rightarrow> message_view rendered" where
  "render_message sh m =
     (if \<not> valid_child (content m) then Throws
      else
        (case render_tokens m of
           View tk \<Rightarrow>
             (case render_toggle sh m of
                View tg \<Rightarrow>
                  (case render_panel sh m of
                     View pn \<Rightarrow>
                       View \<lparr>mv_key = id' m,
                             mv_user = (role m = str ''user''),
                             mv_error = (role m \<noteq> str ''user'' \<and> truthy (isError m)),
                             mv_content = content m,
                             mv_time = timestamp m,
                             mv_tokens = tk,
                             mv_toggle = tg,
                             mv_panel = pn\<rparr>
                   | Throws \<Rightarrow> Throws
                   | Unmodelled \<Rightarrow> Unmodelled)
              | Throws \<Rightarrow> Throws
              | Unmodelled \<Rightarrow> Unmodelled)
         | Throws \<Rightarrow> Throws
         | Unmodelled \<Rightarrow> Unmodelled))"

fun render_messages :: "(nat \<rightharpoonup> bool) \<Rightarrow> message list \<Rightarrow> message_view list rendered" where
  "render_messages sh [] = View []"
| "render_messages sh (m # ms) =
     (case render_message sh m of
        View v \<Rightarrow> (case render_messages sh ms of View vs \<Rightarrow> View (v # vs) | Throws \<Rightarrow> Throws | Unmodelled \<Rightarrow> Unmodelled)
      | Throws \<Rightarrow> Throws
      | Unmodelled \<Rightarrow> Unmodelled)"

record app_view =
  av_messages :: "message_view list"
  av_loading :: bool
  av_input_value :: jsstring
  av_input_disabled :: bool
  av_button_disabled :: bool

definition render_app :: "state \<Rightarrow> app_view rendered" where
  "render_app s =
     (case render_messages (showSteps s) (messages s) of
        View vs \<Rightarrow>
          View \<lparr>av_messages = vs,
                av_loading = isLoading s,
                av_input_value = inputMessage s,
                av_input_disabled = isLoading s,
                av_button_disabled = (isLoading s \<or> trim (inputMessage s) = [])\<rparr>
      | Throws \<Rightarrow> Throws
      | Unmodelled \<Rightarrow> Unmodelled)"

subsection \<open>Runs of the widget\<close>

text \<open>
  The component with its requests in flight. An event is a change of the input field, a
  click on the send button, a key press in the input field, a click on a step toggle, or
  the settling of the oldest request in flight; the clock readings the handler takes come
  with the event.
\<close>

record config =
  ui :: state
  pending :: "request list"

datatype event =
    Change jsstring
  | Click nat nat
  | KeyPress jsstring bool nat nat
  | Toggle nat
  | Settle fetch_result nat nat

definition issue :: "state \<times> request option \<Rightarrow> config \<Rightarrow> config" where
  "issue sr c =
     \<lparr>ui = fst sr, pending = pending c @ (case snd sr of None \<Rightarrow> [] | Some rq \<Rightarrow> [rq])\<rparr>"

fun app_step :: "event \<Rightarrow> config \<Rightarrow> config" where
  "app_step (Change v) c = c\<lparr>ui := setInputMessage v (ui c)\<rparr>"
| "app_step (Click now ts) c = issue (sendMessage_begin now ts (ui c)) c"
| "app_step (KeyPress key shiftKey now ts) c = issue (handleKeyPress key shiftKey now ts (ui c)) c"
| "app_step (Toggle i) c = c\<lparr>ui := toggleSteps i (ui c)\<rparr>"
| "app_step (Settle r now ts) c =
     (case pending c of
        [] \<Rightarrow> c
      | rq # rest \<Rightarrow> \<lparr>ui = sendMessage_finish r now ts (ui c), pending = rest\<rparr>)"

definition mount :: "nat \<Rightarrow> config" where
  "mount t0 = \<lparr>ui = initial t0, pending = []\<rparr>"

fun run :: "event list \<Rightarrow> config \<Rightarrow> config" where
  "run [] c = c"
| "run (e # es) c = run es (app_step e c)"

text \<open>The message that \<open>sendMessage\<close> appends when the \<open>fetch\<close> settles.\<close>

definition settled :: "fetch_result \<Rightarrow> nat \<Rightarrow> nat \<Rightarrow> message" where
  "settled r now ts = (case try_block r now ts of Inr a \<Rightarrow> a | Inl m \<Rightarrow> errorMessage m now ts)"

section \<open>The orchestration core behind /chat\<close>

text \<open>
  The widget posts to \<open>/chat\<close>; the endpoint and its orchestration loop are not among the
  files of the repository. The definitions of this section are modelled from the
  specification (its sections 3 to 7), each marked as such. The collaborators the
  specification leaves outside the core are parameters, so every theorem holds for all of
  them. \<open>'d\<close> is the type of structured payloads.
\<close>

subsection \<open>Data model\<close>

text \<open>Modelled from the spec: the \<open>action_type\<close> of a Step (section 3); no code declares it.\<close>

datatype action_type = Plan | Retrieve | Act | Verify | Respond

text \<open>Modelled from the spec: the \<open>status\<close> of a Step (section 3); no code declares it.\<close>

datatype step_status = Pending | Running | Completed | Failed | Skipped

text \<open>
  Modelled from the spec: the error kinds a Step can carry (sections 4.4 and 7); no code
  declares them. \<open>planning_failed\<close> and \<open>non_progress\<close> end a Session and are held in its
  \<open>halt_reason\<close>, not in a Step.
\<close>

datatype error_kind = Schema_invalid | Guardrail_denied | Collaborator_timeout | Transient_io

text \<open>Modelled from the spec: the Step record (section 3); no code declares it.\<close>

record 'd step =
  seq_index :: nat
  action_type :: action_type
  step_status :: step_status
  description :: string
  input :: 'd
  output_data :: "'d option"
  attempt_count :: nat
  error :: "error_kind option"

text \<open>Modelled from the spec: the GuardrailVerdict (section 3); no code declares it.\<close>

datatype 'd verdict = Allow | Deny string | Modify 'd

text \<open>
  Modelled from the spec: what \<open>Planner.NextStep\<close> returns (sections 3, 4.1 and 6), a
  proposal for the next Step (action type, description, input) or \<open>Done\<close>; \<open>No_plan\<close> is the
  Planner failing to produce a well-formed Plan. No code declares it.
\<close>

datatype 'd plan = Next_step action_type string 'd | Done | No_plan

text \<open>Modelled from the spec: the terminal status of a Session (section 3); no code declares it.\<close>

datatype session_status = Session_completed | Session_halted | Session_failed

text \<open>
  Modelled from the spec: the read-only configuration (sections 4.4, 4.5 and 9), the step
  ceiling, the retry ceiling and the wall-clock budget; no code declares it.
\<close>

record settings =
  step_ceiling :: nat
  retry_ceiling :: nat
  time_budget :: nat

text \<open>
  Modelled from the spec: the collaborator interfaces of section 6, which the core only
  calls: the Planner (on the message history and the trace so far), the handlers behind
  the Step Executor (the number is the attempt, so that a stub can time out twice and then
  succeed), the guardrail policy (on the candidate output and the Step as context), the
  Schema Validator's verdict per action type, the reading of a \<open>verify\<close> output as a deny,
  the injected clock (its reading at the start and after each Step) and the cancellation
  signal as seen before each Step. None of them is in the repository.
\<close>

record 'd collaborators =
  planner :: "(string \<times> string) list \<Rightarrow> 'd step list \<Rightarrow> 'd plan"
  retriever :: "'d \<Rightarrow> nat \<Rightarrow> error_kind + 'd"
  tool_invoker :: "'d \<Rightarrow> nat \<Rightarrow> error_kind + 'd"
  verifier :: "'d step list \<Rightarrow> 'd \<Rightarrow> nat \<Rightarrow> error_kind + 'd"
  responder :: "'d step list \<Rightarrow> 'd \<Rightarrow> nat \<Rightarrow> error_kind + 'd"
  guardrail_policy :: "'d \<Rightarrow> 'd step \<Rightarrow> 'd verdict"
  validate_input :: "action_type \<Rightarrow> 'd \<Rightarrow> bool"
  validate_output :: "action_type \<Rightarrow> 'd step list \<Rightarrow> 'd \<Rightarrow> bool"
  is_deny :: "'d \<Rightarrow> bool"
  clock :: "nat \<Rightarrow> nat"
  cancelled :: "nat \<Rightarrow> bool"

subsection \<open>Step Executor and Guardrail Gate\<close>

text \<open>
  Modelled from the spec: the Executor's dispatch by \<open>action_type\<close> (section 4.2), an
  exhaustive match on the five variants; a \<open>plan\<close> Step records its input as its output. The
  Executor is not in the repository.
\<close>

definition dispatch :: "'d collaborators \<Rightarrow> 'd step list \<Rightarrow> 'd step \<Rightarrow> error_kind + 'd" where
  "dispatch env trace s =
     (case action_type s of
        Plan \<Rightarrow> Inr (input s)
      | Retrieve \<Rightarrow> retriever env (input s) (attempt_count s)
      | Act \<Rightarrow> tool_invoker env (input s) (attempt_count s)
      | Verify \<Rightarrow> verifier env trace (input s) (attempt_count s)
      | Respond \<Rightarrow> responder env trace (input s) (attempt_count s))"

text \<open>
  Modelled from the spec: a Step marked \<open>failed\<close> with a structured error (section 4.2). Not
  in the repository.
\<close>

definition fail_step :: "'d step \<Rightarrow> error_kind \<Rightarrow> 'd step" where
  "fail_step s e = s\<lparr>step_status := Failed, output_data := None, error := Some e\<rparr>"

text \<open>
  Modelled from the spec: a Step marked \<open>completed\<close> with its validated output (sections 3
  and 4.2). Not in the repository.
\<close>

definition complete_step :: "'d step \<Rightarrow> 'd \<Rightarrow> 'd step" where
  "complete_step s out = s\<lparr>step_status := Completed, output_data := Some out, error := None\<rparr>"

text \<open>
  Modelled from the spec: the Guardrail Gate (section 4.6), invoked only on the outputs of
  \<open>act\<close> and \<open>respond\<close> Steps: on \<open>deny\<close> the Step fails with \<open>guardrail_denied\<close>, on \<open>modify\<close> it
  completes with the replacement, on \<open>allow\<close> with the output as it is. The Gate is not in
  the repository.
\<close>

definition guardrail_gate :: "'d collaborators \<Rightarrow> 'd step \<Rightarrow> 'd \<Rightarrow> 'd step" where
  "guardrail_gate env s out =
     (if action_type s = Act \<or> action_type s = Respond then
        (case guardrail_policy env out s of
           Allow \<Rightarrow> complete_step s out
         | Deny reason \<Rightarrow> fail_step s Guardrail_denied
         | Modify replacement \<Rightarrow> complete_step s replacement)
      else complete_step s out)"

text \<open>
  Modelled from the spec: \<open>Execute(step)\<close> (sections 4.2 and 4.3): the input is validated
  before dispatch, a handler error fails the Step, the output is validated after the
  handler returns, and then passes the Gate. The Executor never retries. Not in the
  repository.
\<close>

definition execute :: "'d collaborators \<Rightarrow> 'd step list \<Rightarrow> 'd step \<Rightarrow> 'd step" where
  "execute env trace s =
     (if \<not> validate_input env (action_type s) (input s) then fail_step s Schema_invalid
      else
        (case dispatch env trace s of
           Inl e \<Rightarrow> fail_step s e
         | Inr out \<Rightarrow>
             if \<not> validate_output env (action_type s) trace out then fail_step s Schema_invalid
             else guardrail_gate env s out))"

subsection \<open>Retry Policy\<close>

text \<open>
  Modelled from the spec: \<open>ShouldRetry(step, attempt_count, error_kind)\<close> (section 4.4):
  retry only \<open>collaborator_timeout\<close> and \<open>transient_io\<close>, and only below the retry ceiling.
  Not in the repository.
\<close>

definition should_retry :: "settings \<Rightarrow> 'd step \<Rightarrow> nat \<Rightarrow> error_kind \<Rightarrow> bool" where
  "should_retry cfg s n e \<longleftrightarrow>
     (e = Collaborator_timeout \<or> e = Transient_io) \<and> n < retry_ceiling cfg"

text \<open>
  Modelled from the spec: one Step run to its end (section 4.4): each retry increments
  \<open>attempt_count\<close> and invokes the Executor again with the same input, without asking the
  Planner. Not in the repository.
\<close>

function run_step :: "settings \<Rightarrow> 'd collaborators \<Rightarrow> 'd step list \<Rightarrow> 'd step \<Rightarrow> 'd step" where
  "run_step cfg env trace s =
     (case error (execute env trace s) of
        None \<Rightarrow> execute env trace s
      | Some e \<Rightarrow>
          if should_retry cfg s (attempt_count s) e
          then run_step cfg env trace (s\<lparr>attempt_count := Suc (attempt_count s)\<rparr>)
          else execute env trace s)"
  by pat_completeness auto
termination
  by (relation "measure (\<lambda>(cfg, env, trace, s). retry_ceiling cfg - attempt_count s)")
     (auto simp: should_retry_def)

subsection \<open>Halting Controller\<close>

text \<open>
  Modelled from the spec: \<open>ShouldHalt(session)\<close> (section 4.5), consulted after a Step was
  appended to the trace; \<open>k\<close> counts the Steps run before it. The conditions are tried in
  the order the specification lists them; the reasons other than \<open>step_ceiling\<close> are not
  named there. A failed Step in the trace has either used up its retries or carries an
  error that is never retried. Not in the repository.
\<close>

definition should_halt :: "settings \<Rightarrow> 'd collaborators \<Rightarrow> 'd step list \<Rightarrow> nat \<Rightarrow> string option" where
  "should_halt cfg env trace k =
     (if step_ceiling cfg \<le> length trace then Some ''step_ceiling''
      else if trace \<noteq> [] \<and> error (last trace) = Some Collaborator_timeout then Some ''retries_exhausted''
      else if trace \<noteq> [] \<and> error (last trace) = Some Transient_io then Some ''retries_exhausted''
      else if trace \<noteq> [] \<and> error (last trace) = Some Schema_invalid then Some ''schema_invalid''
      else if trace \<noteq> [] \<and> error (last trace) = Some Guardrail_denied then Some ''guardrail_denied''
      else if trace \<noteq> [] \<and> action_type (last trace) = Verify
              \<and> (case output_data (last trace) of None \<Rightarrow> False | Some out \<Rightarrow> is_deny env out)
           then Some ''verify_denied''
      else if time_budget cfg < clock env (Suc k) - clock env 0 then Some ''time_budget''
      else None)"

text \<open>
  Modelled from the spec: the non-progress guard (section 4.5): the Planner proposes a Step
  whose action type and input are those of the immediately preceding failed Step. The
  comparison is equality (the specification leaves it open). Not in the repository.
\<close>

definition non_progress :: "'d step list \<Rightarrow> action_type \<Rightarrow> 'd \<Rightarrow> bool" where
  "non_progress trace a i \<longleftrightarrow>
     trace \<noteq> [] \<and> step_status (last trace) = Failed
     \<and> action_type (last trace) = a \<and> input (last trace) = i"

subsection \<open>Orchestration Loop\<close>

text \<open>
  Modelled from the spec: why the loop stopped (section 4.1): the Planner signalled
  \<open>Done\<close>, the Planner failed, or the loop halted for a reason. No code declares it.
\<close>

datatype stop = Planner_done | Planner_failed | Halt string

text \<open>
  Modelled from the spec: what \<open>Run\<close> returns (section 4.1), the final response, the trace
  and the terminal status, with the \<open>halt_reason\<close> of the Session (section 3). No code
  declares it.
\<close>

record 'd result =
  final_response :: "'d option"
  step_trace :: "'d step list"
  terminal_status :: session_status
  halt_reason :: "string option"

text \<open>
  Modelled from the spec: a successful \<open>respond\<close> Step (section 4.1). Not in the repository.
\<close>

definition successful_respond :: "'d step \<Rightarrow> bool" where
  "successful_respond s \<longleftrightarrow> action_type s = Respond \<and> step_status s = Completed"

text \<open>
  Modelled from the spec: the last Step of the trace was a successful \<open>respond\<close> (section
  4.1). Not in the repository.
\<close>

definition ends_in_respond :: "'d step list \<Rightarrow> bool" where
  "ends_in_respond trace \<longleftrightarrow> trace \<noteq> [] \<and> successful_respond (last trace)"

text \<open>
  Modelled from the spec: the end of a Session (sections 3, 4.1 and 8): \<open>Done\<close> gives
  \<open>completed\<close> if the last Step was a successful \<open>respond\<close> and \<open>failed\<close> otherwise, a Planner
  failure gives \<open>failed\<close> with \<open>planning_failed\<close>, a halt gives \<open>halted\<close> with its reason. The
  final response is the output of the last Step when that is a successful \<open>respond\<close>. Not in
  the repository.
\<close>

definition conclude :: "stop \<Rightarrow> 'd step list \<Rightarrow> 'd result" where
  "conclude why trace =
     \<lparr>final_response = (if ends_in_respond trace then output_data (last trace) else None),
      step_trace = trace,
      terminal_status =
        (case why of
           Planner_done \<Rightarrow> if ends_in_respond trace then Session_completed else Session_failed
         | Planner_failed \<Rightarrow> Session_failed
         | Halt reason \<Rightarrow> Session_halted),
      halt_reason =
        (case why of
           Planner_done \<Rightarrow> None
         | Planner_failed \<Rightarrow> Some ''planning_failed''
         | Halt reason \<Rightarrow> Some reason)\<rparr>"

text \<open>
  Modelled from the spec: a Step as constructed from a Plan (section 3): the next sequence
  index, \<open>pending\<close>, no output, \<open>attempt_count\<close> 0, no error. Not in the repository.
\<close>

definition new_step :: "nat \<Rightarrow> action_type \<Rightarrow> string \<Rightarrow> 'd \<Rightarrow> 'd step" where
  "new_step n a d i =
     \<lparr>seq_index = n, action_type = a, step_status = Pending, description = d, input = i,
      output_data = None, attempt_count = 0, error = None\<rparr>"

text \<open>
  Modelled from the spec: the Orchestration Loop (sections 4.1, 4.5 and 5) from a trace on;
  \<open>k\<close> counts the Steps already run. No Step is started once the Step count has reached
  the ceiling (sections 4.5 and 8: the loop ends within the configured ceiling, whatever
  the ceiling is) or the cancellation signal is set (section 5). Otherwise the loop asks
  the Planner, stops on \<open>Done\<close> or on a Planner failure, applies the non-progress guard, else
  constructs the Step, runs it, appends it and consults the Halting Controller. Not in the
  repository.
\<close>

function orchestrate ::
  "settings \<Rightarrow> 'd collaborators \<Rightarrow> (string \<times> string) list \<Rightarrow> 'd step list \<Rightarrow> nat \<Rightarrow> 'd result" where
  "orchestrate cfg env history trace k =
     (if step_ceiling cfg \<le> length trace then conclude (Halt ''step_ceiling'') trace
      else if cancelled env k then conclude (Halt ''cancelled'') trace
      else
        (case planner env history trace of
           No_plan \<Rightarrow> conclude Planner_failed trace
         | Done \<Rightarrow> conclude Planner_done trace
         | Next_step a d i \<Rightarrow>
             if non_progress trace a i then conclude (Halt ''non_progress'') trace
             else
               (case should_halt cfg env
                       (trace @ [run_step cfg env trace (new_step (length trace) a d i)]) k of
                  Some reason \<Rightarrow>
                    conclude (Halt reason)
                      (trace @ [run_step cfg env trace (new_step (length trace) a d i)])
                | None \<Rightarrow>
                    orchestrate cfg env history
                      (trace @ [run_step cfg env trace (new_step (length trace) a d i)]) (Suc k))))"
  by pat_completeness auto
termination
  by (relation "measure (\<lambda>(cfg, env, history, trace, k). step_ceiling cfg - length trace)")
     auto

text \<open>
  Modelled from the spec: \<open>Run(session_input)\<close> (section 4.1): the loop from the empty
  trace. Not in the repository.
\<close>

definition Run :: "settings \<Rightarrow> 'd collaborators \<Rightarrow> (string \<times> string) list \<Rightarrow> 'd result" where
  "Run cfg env history = orchestrate cfg env history [] 0"

text \<open>
  Modelled from the spec: the trace on which \<open>Run\<close> asks the Planner for its answer number
  \<open>n\<close> (counted from 0), if the loop gets that far (sections 4.1, 4.5 and 5): the first
  question is on the empty trace; the next one is on the trace with the Step that the
  Planner proposed and the loop ran, unless the Planner answered \<open>Done\<close> or failed, or the
  Session was halted or cancelled before the question. Not in the repository.
\<close>

primrec asks ::
  "settings \<Rightarrow> 'd collaborators \<Rightarrow> (string \<times> string) list \<Rightarrow> nat \<Rightarrow> 'd step list option" where
  "asks cfg env history 0 =
     (if step_ceiling cfg \<le> 0 \<or> cancelled env 0 then None else Some [])"
| "asks cfg env history (Suc n) =
     (case asks cfg env history n of
        None \<Rightarrow> None
      | Some trace \<Rightarrow>
          (case planner env history trace of
             No_plan \<Rightarrow> None
           | Done \<Rightarrow> None
           | Next_step a d i \<Rightarrow>
               if non_progress trace a i then None
               else if should_halt cfg env
                         (trace @ [run_step cfg env trace (new_step (length trace) a d i)]) n
                       \<noteq> None
                    then None
               else if step_ceiling cfg
                         \<le> length (trace @ [run_step cfg env trace (new_step (length trace) a d i)])
                       \<or> cancelled env (Suc n)
                    then None
               else Some (trace @ [run_step cfg env trace (new_step (length trace) a d i)])))"

declare run_step.simps [simp del] orchestrate.simps [simp del]

section \<open>Properties of the chat widget\<close>

subsection \<open>Handlers, one call at a time\<close>

lemma trim_Nil: "trim [] = []"
  by (simp add: trim_def)

lemma trim_nonempty: "trim s \<noteq> [] \<Longrightarrow> s \<noteq> []"
  by (auto simp: trim_def)

lemma run_append: "run (es @ fs) c = run fs (run es c)"
  by (induction es arbitrary: c) simp_all

lemma run_snoc: "run (es @ [e]) c = app_step e (run es c)"
  by (simp add: run_append)

lemma finish_messages:
  "\<exists>a. messages (sendMessage_finish r now ts s) = messages s @ [a]
       \<and> role a = str ''assistant'' \<and> truthy (steps a)"
  by (auto simp: sendMessage_finish_def try_block_def errorMessage_def assistantMessage_def
           split: sum.splits fetch_result.splits body_result.splits option.splits if_splits)

lemma begin_None:
  "trim (inputMessage s) = [] \<or> isLoading s \<Longrightarrow> sendMessage_begin now ts s = (s, None)"
  by (simp add: sendMessage_begin_def)

lemma begin_Some:
  "sendMessage_begin now ts s = (s', Some rq) \<Longrightarrow>
     trim (inputMessage s) \<noteq> [] \<and> \<not> isLoading s
     \<and> s' = s\<lparr>messages := messages s @ [userMessage now ts (inputMessage s)],
              inputMessage := [], isLoading := True\<rparr>
     \<and> rq = chat_request (messages s @ [userMessage now ts (inputMessage s)])"
  by (auto simp: sendMessage_begin_def split: if_splits)

subsection \<open>Runs: the message list only grows, and what is in it\<close>

lemma app_step_prefix: "prefix (messages (ui c)) (messages (ui (app_step e c)))"
proof (cases e)
  case (Click now ts)
  then show ?thesis
    by (cases "sendMessage_begin now ts (ui c)")
       (auto simp: issue_def sendMessage_begin_def split: if_splits)
next
  case (KeyPress key shiftKey now ts)
  then show ?thesis
    by (auto simp: issue_def handleKeyPress_def sendMessage_begin_def split: if_splits)
next
  case (Settle r now ts)
  then show ?thesis
    using finish_messages [of r now ts "ui c"]
    by (cases "pending c") auto
qed (simp_all add: setInputMessage_def toggleSteps_def)

lemma run_prefix: "prefix (messages (ui c)) (messages (ui (run es c)))"
proof (induction es arbitrary: c)
  case Nil
  show ?case by simp
next
  case (Cons e es)
  have "prefix (messages (ui c)) (messages (ui (app_step e c)))"
    by (rule app_step_prefix)
  also have "prefix \<dots> (messages (ui (run es (app_step e c))))"
    by (rule Cons.IH)
  finally show ?case by simp
qed

lemma run_take_prefix:
  "prefix (messages (ui (run (take k es) c))) (messages (ui (run es c)))"
proof -
  have "run es c = run (drop k es) (run (take k es) c)"
    by (metis append_take_drop_id run_append)
  then show ?thesis by (simp add: run_prefix)
qed


lemma finish_settled:
  "sendMessage_finish r now ts s = s\<lparr>messages := messages s @ [settled r now ts], isLoading := False\<rparr>"
  by (simp add: sendMessage_finish_def settled_def split: sum.splits)

lemma app_step_messages:
  "messages (ui (app_step e c)) = messages (ui c)
   \<or> (\<exists>now ts. messages (ui (app_step e c)) = messages (ui c) @ [userMessage now ts (inputMessage (ui c))]
         \<and> trim (inputMessage (ui c)) \<noteq> [])
   \<or> (\<exists>r now ts. messages (ui (app_step e c)) = messages (ui c) @ [settled r now ts])"
proof (cases e)
  case (Click now ts)
  then show ?thesis
    by (auto simp: issue_def sendMessage_begin_def split: if_splits)
next
  case (KeyPress key shiftKey now ts)
  then show ?thesis
    by (auto simp: issue_def handleKeyPress_def sendMessage_begin_def split: if_splits)
next
  case (Settle r now ts)
  then show ?thesis
    by (cases "pending c") (simp_all add: finish_settled, blast)
qed (simp_all add: setInputMessage_def toggleSteps_def)

lemma run_messages_all:
  assumes greet: "\<And>t. P (hd (messages (initial t)))"
      and user: "\<And>now ts t. trim t \<noteq> [] \<Longrightarrow> P (userMessage now ts t)"
      and reply: "\<And>r now ts. P (settled r now ts)"
  shows "\<forall>m\<in>set (messages (ui (run es (mount t0)))). P m"
proof (induction es rule: rev_induct)
  case Nil
  show ?case using greet [of t0] by (simp add: mount_def initial_def)
next
  case (snoc e es)
  show ?case
    using app_step_messages [of e "run es (mount t0)"] snoc.IH user reply
    by (auto simp: run_snoc)
qed

lemma run_roles:
  "\<forall>m\<in>set (messages (ui (run es (mount t0)))). role m = str ''user'' \<or> role m = str ''assistant''"
  by (rule run_messages_all)
     (auto simp: initial_def userMessage_def settled_def try_block_def errorMessage_def
                 assistantMessage_def
           split: sum.splits fetch_result.splits body_result.splits option.splits if_splits)

lemma user_neq_assistant: "str ''user'' \<noteq> str ''assistant''"
  by (simp add: str_def)

lemma settled_role: "role (settled r now ts) = str ''assistant''"
  by (auto simp: settled_def try_block_def errorMessage_def assistantMessage_def
           split: sum.splits fetch_result.splits body_result.splits option.splits if_splits)


lemma run_user_content:
  "\<forall>m\<in>set (messages (ui (run es (mount t0)))).
     role m = str ''user'' \<longrightarrow> (\<exists>t. content m = JStr t \<and> trim t \<noteq> [])"
  by (rule run_messages_all)
     (auto simp: initial_def userMessage_def settled_role user_neq_assistant [symmetric])


lemma run_content_defined:
  "\<forall>m\<in>set (messages (ui (run es (mount t0)))).
     content m = JUndefined \<longrightarrow> role m = str ''assistant'' \<and> isError m = JUndefined"
  by (rule run_messages_all)
     (auto simp: initial_def userMessage_def settled_def try_block_def errorMessage_def
                 assistantMessage_def
           split: sum.splits fetch_result.splits body_result.splits option.splits if_splits)

lemma run_pending:
  "length (pending (run es (mount t0))) \<le> 1
   \<and> (isLoading (ui (run es (mount t0))) \<longleftrightarrow> pending (run es (mount t0)) \<noteq> [])"
proof (induction es rule: rev_induct)
  case Nil
  show ?case by (simp add: mount_def initial_def)
next
  case (snoc e es)
  show ?case
  proof (cases e)
    case (Click now ts)
    then show ?thesis using snoc.IH
      by (auto simp: run_snoc issue_def sendMessage_begin_def split: if_splits)
  next
    case (KeyPress key shiftKey now ts)
    then show ?thesis using snoc.IH
      by (auto simp: run_snoc issue_def handleKeyPress_def sendMessage_begin_def split: if_splits)
  next
    case (Settle r now ts)
    then show ?thesis using snoc.IH
      by (cases "pending (run es (mount t0))") (auto simp: run_snoc finish_settled)
  next
    case (Change v)
    then show ?thesis using snoc.IH by (simp add: run_snoc setInputMessage_def)
  next
    case (Toggle i)
    then show ?thesis using snoc.IH by (simp add: run_snoc toggleSteps_def)
  qed
qed

lemma render_messages_fields:
  "render_messages sh ms = View vs \<Longrightarrow>
     map mv_content vs = map content ms \<and> map mv_user vs = map (\<lambda>m. role m = str ''user'') ms
     \<and> map mv_key vs = map id' ms"
proof (induction ms arbitrary: vs)
  case Nil
  then show ?case by simp
next
  case (Cons m ms)
  then show ?case
    by (auto simp: render_message_def split: rendered.splits if_splits)
qed

lemma js_get_defined: "v \<noteq> JNull \<Longrightarrow> v \<noteq> JUndefined \<Longrightarrow> \<exists>w. js_get v k = Some w"
  by (cases v) (auto split: option.splits)

lemma js_get_None: "js_get v k = None \<longleftrightarrow> v = JNull \<or> v = JUndefined"
  by (cases v) (auto split: option.splits)

lemma try_block_ok:
  assumes "ok code" "data \<noteq> JNull" "data \<noteq> JUndefined"
  shows "\<exists>response data_steps tokens_used data_status.
           js_get data (str ''response'') = Some response
         \<and> js_get data (str ''steps'') = Some data_steps
         \<and> js_get data (str ''tokens_used'') = Some tokens_used
         \<and> js_get data (str ''status'') = Some data_status
         \<and> try_block (Response code (Json data)) now ts =
             Inr (assistantMessage response data_steps tokens_used data_status now ts)"
proof -
  obtain a b c d where "js_get data (str ''response'') = Some a"
    "js_get data (str ''steps'') = Some b" "js_get data (str ''tokens_used'') = Some c"
    "js_get data (str ''status'') = Some d"
    using assms(2,3) js_get_defined by meson
  then show ?thesis using assms(1) by (simp add: try_block_def)
qed

lemma try_block_Inl:
  "(\<exists>m. try_block r now ts = Inl m) \<longleftrightarrow>
     (case r of Rejected m \<Rightarrow> True
      | Response c b \<Rightarrow> \<not> ok c \<or> (case b of JsonRejected m \<Rightarrow> True | Json d \<Rightarrow> d = JNull \<or> d = JUndefined))"
  by (auto simp: try_block_def js_get_None split: fetch_result.splits body_result.splits option.splits)

lemma settled_isError:
  "isError (settled r now ts) = JBool True \<longleftrightarrow> (\<exists>m. try_block r now ts = Inl m)"
  by (cases "try_block r now ts")
     (auto simp: settled_def errorMessage_def try_block_def assistantMessage_def
           split: fetch_result.splits body_result.splits option.splits if_splits)

lemmas eval_defs = mount_def initial_def issue_def sendMessage_begin_def sendMessage_finish_def
  try_block_def ok_def assistantMessage_def errorMessage_def userMessage_def chat_request_def
  wire_def setInputMessage_def toggleSteps_def lookupShow_def handleKeyPress_def
  null_read_message_def
  render_app_def render_message_def render_tokens_def render_panel_def render_toggle_def
  has_steps_def render_step_def getStepIcon_def getStepColor_def

lemma trim_hi: "trim (str ''hi'') = str ''hi''"
  by (simp add: trim_def isWhiteSpace_def str_def)

lemma str_hi_nonempty: "str ''hi'' \<noteq> []"
  by (simp add: str_def)

subsection \<open>The request\<close>

text \<open>
  C5, as amended. Every request that \<open>sendMessage\<close> issues, in any state the widget can
  reach from its mount, is a POST to the \<open>/chat\<close> URL whose body is the object with the one
  member \<open>messages\<close>: the array of the elements of the conversation after the user's message
  was appended, in the order of the list. An element carries \<open>role\<close> and \<open>content\<close> and
  nothing else, but \<open>content\<close> is left out when the message's content is \<open>undefined\<close>, which
  only a message built from a response can have. The list is not empty, its last entry is
  the message just entered, every role in it is \<open>user\<close> or \<open>assistant\<close>, the conversation of
  every earlier moment of the run is an initial segment of it (oldest first), and it is the
  list the component displays, in the same order.
\<close>

theorem sendMessage_request_body:
  assumes "sendMessage_begin now ts (ui (run es (mount t0))) = (s', Some rq)"
  shows "url rq = str ''http://localhost:8000/chat'' \<and> http_method rq = str ''POST''
    \<and> body rq = JObj [(str ''messages'',
         JArr (map (\<lambda>m. JObj ((str ''role'', JStr (role m))
                            # (if content m = JUndefined then []
                               else [(str ''content'', content m)])))
                   (messages s')))]
    \<and> messages s' = messages (ui (run es (mount t0)))
                      @ [userMessage now ts (inputMessage (ui (run es (mount t0))))]
    \<and> messages s' \<noteq> []
    \<and> (\<forall>m\<in>set (messages s'). role m = str ''user'' \<or> role m = str ''assistant'')
    \<and> (\<forall>m\<in>set (messages s').
          content m = JUndefined \<longrightarrow> role m = str ''assistant'' \<and> isError m = JUndefined)
    \<and> (\<forall>k\<le>length es. prefix (messages (ui (run (take k es) (mount t0)))) (messages s'))
    \<and> (\<forall>v. render_app s' = View v \<longrightarrow>
          map mv_content (av_messages v) = map content (messages s')
          \<and> map mv_user (av_messages v) = map (\<lambda>m. role m = str ''user'') (messages s'))"
proof -
  let ?s = "ui (run es (mount t0))"
  let ?u = "userMessage now ts (inputMessage ?s)"
  from assms have s': "s' = ?s\<lparr>messages := messages ?s @ [?u], inputMessage := [], isLoading := True\<rparr>"
    and rq: "rq = chat_request (messages ?s @ [?u])"
    using begin_Some by blast+
  have msgs: "messages s' = messages ?s @ [?u]"
    by (simp add: s')
  have roles: "\<forall>m\<in>set (messages s'). role m = str ''user'' \<or> role m = str ''assistant''"
    using run_roles [of es t0] by (auto simp: msgs userMessage_def)
  have defined: "\<forall>m\<in>set (messages s').
          content m = JUndefined \<longrightarrow> role m = str ''assistant'' \<and> isError m = JUndefined"
    using run_content_defined [of es t0] by (auto simp: msgs userMessage_def)
  have older: "\<forall>k\<le>length es. prefix (messages (ui (run (take k es) (mount t0)))) (messages s')"
    using run_take_prefix [of _ es "mount t0"] by (auto simp: msgs intro: prefix_order.trans)
  have shown: "\<forall>v. render_app s' = View v \<longrightarrow>
          map mv_content (av_messages v) = map content (messages s')
          \<and> map mv_user (av_messages v) = map (\<lambda>m. role m = str ''user'') (messages s')"
    using render_messages_fields [of "showSteps s'" "messages s'"]
    by (auto simp: render_app_def split: rendered.splits)
  have "body rq = JObj [(str ''messages'',
         JArr (map (\<lambda>m. JObj ((str ''role'', JStr (role m))
                            # (if content m = JUndefined then []
                               else [(str ''content'', content m)])))
                   (messages s')))]"
    by (simp add: rq chat_request_def msgs wire_def)
  moreover have "url rq = str ''http://localhost:8000/chat'' \<and> http_method rq = str ''POST''"
    by (simp add: rq chat_request_def)
  ultimately show ?thesis
    using msgs roles defined older shown by simp
qed

theorem sendMessage_request_body_witness:
  "sendMessage_begin 1000 1001 (ui (run [Change (str ''hi'')] (mount 0))) =
     (\<lparr>messages = messages (initial 0) @ [userMessage 1000 1001 (str ''hi'')],
       inputMessage = [], isLoading = True, showSteps = showSteps (initial 0)\<rparr>,
      Some (chat_request (messages (initial 0) @ [userMessage 1000 1001 (str ''hi'')])))
   \<and> body (chat_request (messages (initial 0) @ [userMessage 1000 1001 (str ''hi'')])) =
      JObj [(str ''messages'',
        JArr [JObj [(str ''role'', JStr (str ''assistant'')),
                    (str ''content'', content (hd (messages (initial 0))))],
              JObj [(str ''role'', JStr (str ''user'')), (str ''content'', JStr (str ''hi''))]])]"
proof -
  have u: "ui (run [Change (str ''hi'')] (mount 0)) = (initial 0)\<lparr>inputMessage := str ''hi''\<rparr>"
    by (simp add: mount_def setInputMessage_def)
  have l: "\<not> isLoading (initial 0)"
    by (simp add: initial_def)
  have h: "sendMessage_begin 1000 1001 (ui (run [Change (str ''hi'')] (mount 0))) =
     (\<lparr>messages = messages (initial 0) @ [userMessage 1000 1001 (str ''hi'')],
       inputMessage = [], isLoading = True, showSteps = showSteps (initial 0)\<rparr>,
      Some (chat_request (messages (initial 0) @ [userMessage 1000 1001 (str ''hi'')])))"
    unfolding u by (simp add: sendMessage_begin_def trim_hi str_hi_nonempty l)
  note b = sendMessage_request_body [OF h, THEN conjunct2, THEN conjunct2, THEN conjunct1]
  show ?thesis
    using h b by (simp add: initial_def userMessage_def)
qed

text \<open>
  The claim as stated fails: after a response with status 200 whose body is \<open>{}\<close>, the
  assistant message has the content \<open>undefined\<close>, and the next request carries for it an
  element with \<open>role\<close> alone.
\<close>

theorem content_left_out:
  "map_option body (snd (sendMessage_begin 3000 3001
      (ui (run [Change (str ''hi''), Click 1000 1001,
                Settle (Response 200 (Json (JObj []))) 2000 2001,
                Change (str ''hi'')] (mount 0)))))
   = Some (JObj [(str ''messages'',
        JArr [JObj [(str ''role'', JStr (str ''assistant'')),
                    (str ''content'', content (hd (messages (initial 0))))],
              JObj [(str ''role'', JStr (str ''user'')), (str ''content'', JStr (str ''hi''))],
              JObj [(str ''role'', JStr (str ''assistant''))],
              JObj [(str ''role'', JStr (str ''user'')), (str ''content'', JStr (str ''hi''))]])])"
proof -
  have u: "ui (run [Change (str ''hi''), Click 1000 1001,
                Settle (Response 200 (Json (JObj []))) 2000 2001,
                Change (str ''hi'')] (mount 0))
    = \<lparr>messages = messages (initial 0) @ [userMessage 1000 1001 (str ''hi''),
          assistantMessage JUndefined JUndefined JUndefined JUndefined 2000 2001],
        inputMessage = str ''hi'', isLoading = False, showSteps = Map.empty\<rparr>"
    by (simp add: mount_def issue_def sendMessage_begin_def setInputMessage_def trim_hi
          str_hi_nonempty sendMessage_finish_def try_block_def ok_def initial_def)
  show ?thesis
    unfolding u
    by (simp add: sendMessage_begin_def trim_hi str_hi_nonempty chat_request_def wire_def
          initial_def userMessage_def assistantMessage_def)
qed

text \<open>
  C8. When the input is empty after trimming or a request is in flight, \<open>sendMessage\<close>
  issues no request and returns the state as it was. Hence, in every run from the mount,
  at most one request is in flight, \<open>isLoading\<close> holds exactly while one is, and every user
  message in the list, and so in every request issued, has a content that is not empty,
  even after trimming.
\<close>

theorem sendMessage_guard:
  "(trim (inputMessage s) = [] \<or> isLoading s \<longrightarrow> sendMessage_begin now ts s = (s, None))
   \<and> length (pending (run es (mount t0))) \<le> 1
   \<and> (isLoading (ui (run es (mount t0))) \<longleftrightarrow> pending (run es (mount t0)) \<noteq> [])
   \<and> (\<forall>m\<in>set (messages (ui (run es (mount t0)))).
         role m = str ''user'' \<longrightarrow> (\<exists>t. content m = JStr t \<and> trim t \<noteq> [] \<and> t \<noteq> []))
   \<and> (\<forall>s' rq. sendMessage_begin now ts (ui (run es (mount t0))) = (s', Some rq) \<longrightarrow>
         rq = chat_request (messages s')
         \<and> (\<forall>m\<in>set (messages s').
               role m = str ''user'' \<longrightarrow> (\<exists>t. content m = JStr t \<and> trim t \<noteq> [] \<and> t \<noteq> [])))"
proof -
  have sent: "\<forall>s' rq. sendMessage_begin now ts (ui (run es (mount t0))) = (s', Some rq) \<longrightarrow>
         rq = chat_request (messages s')
         \<and> (\<forall>m\<in>set (messages s').
               role m = str ''user'' \<longrightarrow> (\<exists>t. content m = JStr t \<and> trim t \<noteq> [] \<and> t \<noteq> []))"
  proof (intro allI impI)
    fix s' rq
    assume b: "sendMessage_begin now ts (ui (run es (mount t0))) = (s', Some rq)"
    have "ui (run (es @ [Click now ts]) (mount t0)) = s'"
      by (simp add: run_snoc issue_def b)
    then have "\<forall>m\<in>set (messages s').
               role m = str ''user'' \<longrightarrow> (\<exists>t. content m = JStr t \<and> trim t \<noteq> [])"
      using run_user_content [of "es @ [Click now ts]" t0] by simp
    moreover have "rq = chat_request (messages s')"
      using begin_Some [OF b] by simp
    ultimately show "rq = chat_request (messages s')
         \<and> (\<forall>m\<in>set (messages s').
               role m = str ''user'' \<longrightarrow> (\<exists>t. content m = JStr t \<and> trim t \<noteq> [] \<and> t \<noteq> []))"
      using trim_nonempty by blast
  qed
  show ?thesis
    using begin_None [of s now ts] run_pending [of es t0] run_user_content [of es t0]
          trim_nonempty sent
    by blast
qed

theorem sendMessage_guard_witness:
  "trim (inputMessage (initial 0)) = []
   \<and> sendMessage_begin 5 6 (initial 0) = (initial 0, None)
   \<and> length (pending (run [Change (str ''hi''), Click 1000 1001, Click 1002 1003] (mount 0))) \<le> 1"
  using sendMessage_guard [of "initial 0" 5 6 "[Change (str ''hi''), Click 1000 1001, Click 1002 1003]" 0]
  by (simp add: initial_def trim_Nil)

subsection \<open>The response\<close>

text \<open>
  C9. When the \<open>fetch\<close> rejects or the response is not ok (its status is outside 200..299),
  \<open>sendMessage\<close> appends exactly one message: an assistant message with \<open>isError\<close> true,
  an empty \<open>steps\<close> array and a content that starts with
  \<open>Sorry, I encountered an error: \<close>. Nothing else of the state changes but \<open>isLoading\<close>,
  so the user message appended before the request stays in the list; and \<open>isLoading\<close> is
  false afterwards however the \<open>fetch\<close> ended.
\<close>

theorem sendMessage_failure:
  assumes "r = Rejected m \<or> (r = Response code b \<and> \<not> ok code)"
  shows "\<exists>msg e. e = \<lparr>id' = now + 1, role = str ''assistant'',
                     content = JStr (str ''Sorry, I encountered an error: '' @ msg),
                     timestamp = ts, steps = JArr [], tokensUsed = JUndefined,
                     status = JUndefined, isError = JBool True\<rparr>
     \<and> sendMessage_finish r now ts s = s\<lparr>messages := messages s @ [e], isLoading := False\<rparr>
     \<and> (\<forall>now0 ts0 s0 rq. sendMessage_begin now0 ts0 s0 = (s, Some rq) \<longrightarrow>
           messages (sendMessage_finish r now ts s)
             = messages s0 @ [userMessage now0 ts0 (inputMessage s0), e])
     \<and> (\<forall>r'. \<not> isLoading (sendMessage_finish r' now ts s))"
proof -
  obtain msg where tb: "try_block r now ts = Inl msg"
    using assms by (auto simp: try_block_def)
  let ?e = "errorMessage msg now ts"
  have fin: "sendMessage_finish r now ts s = s\<lparr>messages := messages s @ [?e], isLoading := False\<rparr>"
    by (simp add: sendMessage_finish_def tb)
  have "\<forall>now0 ts0 s0 rq. sendMessage_begin now0 ts0 s0 = (s, Some rq) \<longrightarrow>
           messages (sendMessage_finish r now ts s)
             = messages s0 @ [userMessage now0 ts0 (inputMessage s0), ?e]"
    by (auto simp: fin dest!: begin_Some)
  moreover have "\<forall>r'. \<not> isLoading (sendMessage_finish r' now ts s)"
    by (simp add: finish_settled)
  moreover have "?e = \<lparr>id' = now + 1, role = str ''assistant'',
                     content = JStr (str ''Sorry, I encountered an error: '' @ msg),
                     timestamp = ts, steps = JArr [], tokensUsed = JUndefined,
                     status = JUndefined, isError = JBool True\<rparr>"
    by (simp add: errorMessage_def)
  ultimately show ?thesis
    using fin by blast
qed

theorem sendMessage_failure_witness:
  "\<not> ok 500
   \<and> messages (sendMessage_finish (Response 500 (Json JNull)) 2000 2001 (initial 0))
       = messages (initial 0) @ [errorMessage (str ''Failed to get response'') 2000 2001]
   \<and> \<not> isLoading (sendMessage_finish (Response 500 (Json JNull)) 2000 2001 (initial 0))"
proof -
  have h: "Response 500 (Json JNull) = Rejected []
           \<or> (Response 500 (Json JNull) = Response 500 (Json JNull) \<and> \<not> ok 500)"
    by (simp add: ok_def)
  show ?thesis
    using sendMessage_failure [OF h, of 2000 2001 "initial 0"]
    by (auto simp: ok_def sendMessage_finish_def try_block_def)
qed

text \<open>
  C7, as amended. For every ok response (status 200 among them) whose body parses to a
  JSON value other than \<open>null\<close>, \<open>sendMessage\<close> appends one assistant message that is not
  marked as an error, with the body's \<open>response\<close> as content, its \<open>steps\<close> (or \<open>[]\<close>), its
  \<open>tokens_used\<close> and its \<open>status\<close>, whatever that status says; it is rendered on the
  assistant's side without the error colours. The error bubble is produced exactly when
  the \<open>fetch\<close> rejects, the response is not ok, its body does not parse, or the body is
  \<open>null\<close>.
\<close>

theorem chat_response_displayed:
  "(ok code \<and> data \<noteq> JNull \<and> data \<noteq> JUndefined \<longrightarrow>
      (\<exists>response data_steps tokens_used data_status a.
          js_get data (str ''response'') = Some response
        \<and> js_get data (str ''steps'') = Some data_steps
        \<and> js_get data (str ''tokens_used'') = Some tokens_used
        \<and> js_get data (str ''status'') = Some data_status
        \<and> a = \<lparr>id' = now + 1, role = str ''assistant'', content = response, timestamp = ts,
                steps = (if truthy data_steps then data_steps else JArr []),
                tokensUsed = tokens_used, status = data_status, isError = JUndefined\<rparr>
        \<and> sendMessage_finish (Response code (Json data)) now ts s
            = s\<lparr>messages := messages s @ [a], isLoading := False\<rparr>
        \<and> (\<forall>sh v. render_message sh a = View v \<longrightarrow>
              mv_content v = response \<and> \<not> mv_error v \<and> \<not> mv_user v)))
   \<and> (isError (last (messages (sendMessage_finish r now ts s))) = JBool True \<longleftrightarrow>
        (case r of
           Rejected m \<Rightarrow> True
         | Response c b \<Rightarrow>
             \<not> ok c \<or> (case b of JsonRejected m \<Rightarrow> True | Json d \<Rightarrow> d = JNull \<or> d = JUndefined)))
   \<and> ok 200"
proof -
  have first: "ok code \<and> data \<noteq> JNull \<and> data \<noteq> JUndefined \<longrightarrow>
      (\<exists>response data_steps tokens_used data_status a.
          js_get data (str ''response'') = Some response
        \<and> js_get data (str ''steps'') = Some data_steps
        \<and> js_get data (str ''tokens_used'') = Some tokens_used
        \<and> js_get data (str ''status'') = Some data_status
        \<and> a = \<lparr>id' = now + 1, role = str ''assistant'', content = response, timestamp = ts,
                steps = (if truthy data_steps then data_steps else JArr []),
                tokensUsed = tokens_used, status = data_status, isError = JUndefined\<rparr>
        \<and> sendMessage_finish (Response code (Json data)) now ts s
            = s\<lparr>messages := messages s @ [a], isLoading := False\<rparr>
        \<and> (\<forall>sh v. render_message sh a = View v \<longrightarrow>
              mv_content v = response \<and> \<not> mv_error v \<and> \<not> mv_user v))"
  proof
    assume h: "ok code \<and> data \<noteq> JNull \<and> data \<noteq> JUndefined"
    then obtain response data_steps tokens_used data_status where
      g: "js_get data (str ''response'') = Some response"
         "js_get data (str ''steps'') = Some data_steps"
         "js_get data (str ''tokens_used'') = Some tokens_used"
         "js_get data (str ''status'') = Some data_status"
      and tb: "try_block (Response code (Json data)) now ts =
             Inr (assistantMessage response data_steps tokens_used data_status now ts)"
      using try_block_ok [of code data now ts] by blast
    let ?a = "assistantMessage response data_steps tokens_used data_status now ts"
    have "sendMessage_finish (Response code (Json data)) now ts s
            = s\<lparr>messages := messages s @ [?a], isLoading := False\<rparr>"
      by (simp add: sendMessage_finish_def tb)
    moreover have "\<forall>sh v. render_message sh ?a = View v \<longrightarrow>
              mv_content v = response \<and> \<not> mv_error v \<and> \<not> mv_user v"
      by (auto simp: render_message_def assistantMessage_def user_neq_assistant [symmetric]
               split: rendered.splits if_splits)
    ultimately show "\<exists>response data_steps tokens_used data_status a.
          js_get data (str ''response'') = Some response
        \<and> js_get data (str ''steps'') = Some data_steps
        \<and> js_get data (str ''tokens_used'') = Some tokens_used
        \<and> js_get data (str ''status'') = Some data_status
        \<and> a = \<lparr>id' = now + 1, role = str ''assistant'', content = response, timestamp = ts,
                steps = (if truthy data_steps then data_steps else JArr []),
                tokensUsed = tokens_used, status = data_status, isError = JUndefined\<rparr>
        \<and> sendMessage_finish (Response code (Json data)) now ts s
            = s\<lparr>messages := messages s @ [a], isLoading := False\<rparr>
        \<and> (\<forall>sh v. render_message sh a = View v \<longrightarrow>
              mv_content v = response \<and> \<not> mv_error v \<and> \<not> mv_user v)"
      using g by (simp add: assistantMessage_def)
  qed
  have second: "isError (last (messages (sendMessage_finish r now ts s))) = JBool True \<longleftrightarrow>
        (case r of
           Rejected m \<Rightarrow> True
         | Response c b \<Rightarrow>
             \<not> ok c \<or> (case b of JsonRejected m \<Rightarrow> True | Json d \<Rightarrow> d = JNull \<or> d = JUndefined))"
    by (simp add: finish_settled settled_isError try_block_Inl)
  show ?thesis
    using first second by (simp add: ok_def)
qed

theorem chat_response_displayed_witness:
  "ok 200
   \<and> messages (sendMessage_finish
        (Response 200 (Json (JObj [(str ''response'', JStr (str ''4'')),
                                   (str ''steps'', JArr []),
                                   (str ''status'', JStr (str ''halted''))])))
        2000 2001 (initial 0))
     = messages (initial 0) @
         [\<lparr>id' = 2001, role = str ''assistant'', content = JStr (str ''4''), timestamp = 2001,
           steps = JArr [], tokensUsed = JUndefined, status = JStr (str ''halted''),
           isError = JUndefined\<rparr>]"
  using chat_response_displayed [of 200 "JObj [(str ''response'', JStr (str ''4'')),
                                   (str ''steps'', JArr []),
                                   (str ''status'', JStr (str ''halted''))]" 2000 2001 "initial 0"]
  by (auto simp: str_def)

text \<open>
  The claim as stated fails: a response with status 200 and the body \<open>null\<close> ends in the
  error bubble (third message of the list), though the response was ok and the \<open>fetch\<close>
  did not fail.
\<close>

theorem null_body_error_bubble:
  "ok 200 \<and>
   (case render_app (ui (run [Change (str ''hi''), Click 1000 1001,
                               Settle (Response 200 (Json JNull)) 2000 2001] (mount 0))) of
      View v \<Rightarrow> map mv_error (av_messages v) | Throws \<Rightarrow> [] | Unmodelled \<Rightarrow> [])
     = [False, False, True]"
  by (simp add: eval_defs trim_hi) (simp add: str_def)

subsection \<open>The step trace\<close>


































section \<open>Properties of the orchestration core\<close>

subsection \<open>One Step: Executor, Gate and retries\<close>

lemma guardrail_gate_fields:
  "attempt_count (guardrail_gate env s out) = attempt_count s
   \<and> action_type (guardrail_gate env s out) = action_type s
   \<and> seq_index (guardrail_gate env s out) = seq_index s
   \<and> input (guardrail_gate env s out) = input s"
  by (simp add: guardrail_gate_def complete_step_def fail_step_def split: verdict.splits)

lemma execute_fields:
  "attempt_count (execute env trace s) = attempt_count s
   \<and> action_type (execute env trace s) = action_type s
   \<and> seq_index (execute env trace s) = seq_index s
   \<and> input (execute env trace s) = input s"
  by (simp add: execute_def guardrail_gate_fields fail_step_def split: sum.splits)

lemma execute_status:
  "(step_status (execute env trace s) = Completed \<and> error (execute env trace s) = None)
   \<or> (step_status (execute env trace s) = Failed \<and> error (execute env trace s) \<noteq> None
        \<and> output_data (execute env trace s) = None)"
  by (simp add: execute_def guardrail_gate_def complete_step_def fail_step_def
      split: sum.splits verdict.splits)

lemma run_step_attempts:
  "attempt_count (run_step cfg env trace s) \<le> max (attempt_count s) (retry_ceiling cfg)"
proof (induction cfg env trace s rule: run_step.induct)
  case (1 cfg env trace s)
  show ?case
  proof (cases "error (execute env trace s)")
    case None
    then show ?thesis
      by (subst run_step.simps) (simp add: execute_fields)
  next
    case (Some e)
    show ?thesis
    proof (cases "should_retry cfg s (attempt_count s) e")
      case True
      then have "attempt_count (run_step cfg env trace (s\<lparr>attempt_count := Suc (attempt_count s)\<rparr>))
                  \<le> max (Suc (attempt_count s)) (retry_ceiling cfg)"
        using "1.IH" [OF Some True] by simp
      moreover have "Suc (attempt_count s) \<le> retry_ceiling cfg"
        using True by (simp add: should_retry_def)
      ultimately show ?thesis
        using Some True by (subst run_step.simps) simp
    next
      case False
      then show ?thesis
        using Some by (subst run_step.simps) (simp add: execute_fields)
    qed
  qed
qed


lemma should_retry_ignores_step: "should_retry cfg s n e = should_retry cfg s' n e"
  by (simp add: should_retry_def)

lemma run_step_is_execute:
  "\<exists>n. run_step cfg env trace s = execute env trace (s\<lparr>attempt_count := n\<rparr>)
       \<and> attempt_count s \<le> n \<and> n \<le> max (attempt_count s) (retry_ceiling cfg)
       \<and> (\<forall>e. error (run_step cfg env trace s) = Some e \<longrightarrow> \<not> should_retry cfg s n e)"
proof (induction cfg env trace s rule: run_step.induct)
  case (1 cfg env trace s)
  show ?case
  proof (cases "error (execute env trace s)")
    case None
    then have "run_step cfg env trace s = execute env trace s"
      by (subst run_step.simps) simp
    then show ?thesis
      using None by (intro exI [of _ "attempt_count s"]) simp
  next
    case (Some e)
    show ?thesis
    proof (cases "should_retry cfg s (attempt_count s) e")
      case True
      let ?s' = "s\<lparr>attempt_count := Suc (attempt_count s)\<rparr>"
      from "1.IH" [OF Some True] obtain n where
        n: "run_step cfg env trace ?s' = execute env trace (?s'\<lparr>attempt_count := n\<rparr>)"
           "Suc (attempt_count s) \<le> n" "n \<le> max (Suc (attempt_count s)) (retry_ceiling cfg)"
           "\<forall>e. error (run_step cfg env trace ?s') = Some e \<longrightarrow> \<not> should_retry cfg ?s' n e"
        by auto
      have eq: "run_step cfg env trace s = run_step cfg env trace ?s'"
        using Some True by (subst run_step.simps) simp
      have "Suc (attempt_count s) \<le> retry_ceiling cfg"
        using True by (simp add: should_retry_def)
      then show ?thesis
        using n eq should_retry_ignores_step [of cfg ?s' n _ s]
        by (intro exI [of _ n]) auto
    next
      case False
      then have "run_step cfg env trace s = execute env trace s"
        using Some by (subst run_step.simps) simp
      then show ?thesis
        using Some False by (intro exI [of _ "attempt_count s"]) simp
    qed
  qed
qed

lemma run_step_fields:
  "action_type (run_step cfg env trace s) = action_type s
   \<and> seq_index (run_step cfg env trace s) = seq_index s
   \<and> input (run_step cfg env trace s) = input s"
  using run_step_is_execute [of cfg env trace s] by (auto simp: execute_fields)

lemma run_step_status:
  "(step_status (run_step cfg env trace s) = Completed \<and> error (run_step cfg env trace s) = None)
   \<or> (step_status (run_step cfg env trace s) = Failed \<and> error (run_step cfg env trace s) \<noteq> None)"
  using run_step_is_execute [of cfg env trace s] execute_status by metis

lemma execute_completed:
  assumes "step_status (execute env trace s) = Completed"
  shows "\<exists>x. execute env trace s = complete_step s x
           \<and> (action_type s = Act \<or> action_type s = Respond \<longrightarrow>
                (\<exists>out. (guardrail_policy env out s = Allow \<and> x = out)
                       \<or> guardrail_policy env out s = Modify x))"
  using assms
  by (auto simp: execute_def guardrail_gate_def fail_step_def complete_step_def
      split: sum.splits verdict.splits if_splits)

lemma run_new_step_gate:
  assumes "step_status (run_step cfg env t (new_step m a d i)) = Completed"
      and "a = Act \<or> a = Respond"
  shows "\<exists>out. (guardrail_policy env out
                   ((run_step cfg env t (new_step m a d i))
                      \<lparr>step_status := Pending, output_data := None\<rparr>) = Allow
                 \<and> output_data (run_step cfg env t (new_step m a d i)) = Some out)
             \<or> (\<exists>replacement.
                   guardrail_policy env out
                     ((run_step cfg env t (new_step m a d i))
                        \<lparr>step_status := Pending, output_data := None\<rparr>) = Modify replacement
                   \<and> output_data (run_step cfg env t (new_step m a d i)) = Some replacement)"
proof -
  let ?r = "run_step cfg env t (new_step m a d i)"
  obtain n where n: "?r = execute env t ((new_step m a d i)\<lparr>attempt_count := n\<rparr>)"
    using run_step_is_execute [of cfg env t "new_step m a d i"] by blast
  let ?s0 = "(new_step m a d i)\<lparr>attempt_count := n\<rparr>"
  have c: "step_status (execute env t ?s0) = Completed"
    using assms(1) n by simp
  have a: "action_type ?s0 = Act \<or> action_type ?s0 = Respond"
    using assms(2) by (simp add: new_step_def)
  from execute_completed [OF c] a obtain x out where
    x: "execute env t ?s0 = complete_step ?s0 x"
       "(guardrail_policy env out ?s0 = Allow \<and> x = out) \<or> guardrail_policy env out ?s0 = Modify x"
    by blast
  have ctx: "?r\<lparr>step_status := Pending, output_data := None\<rparr> = ?s0"
    unfolding n x(1) by (simp add: complete_step_def new_step_def)
  have outp: "output_data ?r = Some x"
    unfolding n x(1) by (simp add: complete_step_def)
  show ?thesis
    using x(2) unfolding ctx outp by blast
qed

lemma run_new_step_action: "action_type (run_step cfg env t (new_step m a d i)) = a"
  using run_step_fields [of cfg env t "new_step m a d i"] by (simp add: new_step_def)

subsection \<open>The loop\<close>

lemma step_trace_conclude: "step_trace (conclude why trace) = trace"
  by (simp add: conclude_def)

lemma orchestrate_rule:
  assumes init: "I trace k"
    and step: "\<And>t k a d i. \<lbrakk>I t k; length t < step_ceiling cfg; \<not> cancelled env k;
          planner env history t = Next_step a d i; \<not> non_progress t a i;
          should_halt cfg env (t @ [run_step cfg env t (new_step (length t) a d i)]) k = None\<rbrakk>
        \<Longrightarrow> I (t @ [run_step cfg env t (new_step (length t) a d i)]) (Suc k)"
    and ceiling: "\<And>t k. \<lbrakk>I t k; step_ceiling cfg \<le> length t\<rbrakk>
        \<Longrightarrow> Q (conclude (Halt ''step_ceiling'') t)"
    and cancel: "\<And>t k. \<lbrakk>I t k; length t < step_ceiling cfg; cancelled env k\<rbrakk>
        \<Longrightarrow> Q (conclude (Halt ''cancelled'') t)"
    and no_plan: "\<And>t k. \<lbrakk>I t k; length t < step_ceiling cfg; \<not> cancelled env k;
          planner env history t = No_plan\<rbrakk>
        \<Longrightarrow> Q (conclude Planner_failed t)"
    and finished: "\<And>t k. \<lbrakk>I t k; length t < step_ceiling cfg; \<not> cancelled env k;
          planner env history t = Done\<rbrakk>
        \<Longrightarrow> Q (conclude Planner_done t)"
    and stuck: "\<And>t k a d i. \<lbrakk>I t k; length t < step_ceiling cfg; \<not> cancelled env k;
          planner env history t = Next_step a d i; non_progress t a i\<rbrakk>
        \<Longrightarrow> Q (conclude (Halt ''non_progress'') t)"
    and halt: "\<And>t k a d i reason. \<lbrakk>I t k; length t < step_ceiling cfg; \<not> cancelled env k;
          planner env history t = Next_step a d i; \<not> non_progress t a i;
          should_halt cfg env (t @ [run_step cfg env t (new_step (length t) a d i)]) k
            = Some reason\<rbrakk>
        \<Longrightarrow> Q (conclude (Halt reason) (t @ [run_step cfg env t (new_step (length t) a d i)]))"
  shows "Q (orchestrate cfg env history trace k)"
  using assms
proof (induction cfg env history trace k rule: orchestrate.induct)
  case (1 cfg env history trace k)
  note I = "1.prems"(1) and step = "1.prems"(2) and ceiling = "1.prems"(3)
    and cancel = "1.prems"(4) and no_plan = "1.prems"(5) and finished = "1.prems"(6)
    and stuck = "1.prems"(7) and halt = "1.prems"(8)
  show ?case
  proof (cases "step_ceiling cfg \<le> length trace")
    case True
    then show ?thesis
      using ceiling [OF I] by (subst orchestrate.simps) simp
  next
    case False
    then have below: "length trace < step_ceiling cfg" and nl: "\<not> step_ceiling cfg \<le> length trace"
      by simp_all
    show ?thesis
    proof (cases "cancelled env k")
      case True
      then show ?thesis
        using nl cancel [OF I below] by (subst orchestrate.simps) simp
    next
      case nc: False
      show ?thesis
      proof (cases "planner env history trace")
        case Done
        then show ?thesis
          using nl nc finished [OF I below] by (subst orchestrate.simps) simp
      next
        case No_plan
        then show ?thesis
          using nl nc no_plan [OF I below] by (subst orchestrate.simps) simp
      next
        case (Next_step a d i)
        let ?t = "trace @ [run_step cfg env trace (new_step (length trace) a d i)]"
        show ?thesis
        proof (cases "non_progress trace a i")
          case True
          then show ?thesis
            using nl nc Next_step stuck [OF I below] by (subst orchestrate.simps) simp
        next
          case np: False
          show ?thesis
          proof (cases "should_halt cfg env ?t k")
            case (Some reason)
            then show ?thesis
              using nl nc Next_step np halt [OF I below] by (subst orchestrate.simps) simp
          next
            case None
            have "I ?t (Suc k)"
              using step [OF I below nc Next_step np None] .
            then have "Q (orchestrate cfg env history ?t (Suc k))"
              using "1.IH" [OF nl nc Next_step np None] step ceiling cancel no_plan finished
                    stuck halt
              by blast
            then show ?thesis
              using nl nc Next_step np None by (subst orchestrate.simps) simp
          qed
        qed
      qed
    qed
  qed
qed

lemma should_halt_None_length:
  "should_halt cfg env t k = None \<Longrightarrow> length t < step_ceiling cfg"
  by (auto simp: should_halt_def split: if_splits)



lemma should_halt_None_completed:
  assumes "should_halt cfg env (t @ [run_step cfg env t s]) k = None"
  shows "step_status (run_step cfg env t s) = Completed"
proof -
  have "error (run_step cfg env t s) = None"
  proof (cases "error (run_step cfg env t s)")
    case None
    then show ?thesis .
  next
    case (Some e)
    then show ?thesis
      using assms by (cases e) (simp_all add: should_halt_def split: if_splits)
  qed
  then show ?thesis
    using run_step_status [of cfg env t s] by auto
qed

lemma conclude_simps:
  "terminal_status (conclude (Halt reason) t) = Session_halted"
  "halt_reason (conclude (Halt reason) t) = Some reason"
  "terminal_status (conclude Planner_failed t) = Session_failed"
  "halt_reason (conclude Planner_failed t) = Some ''planning_failed''"
  "halt_reason (conclude Planner_done t) = None"
  "terminal_status (conclude Planner_done t)
     = (if ends_in_respond t then Session_completed else Session_failed)"
  by (simp_all add: conclude_def)





lemma orchestrate_steps:
  assumes "\<forall>s\<in>set trace. P s"
      and "\<And>t a d i. planner env history t = Next_step a d i
             \<Longrightarrow> P (run_step cfg env t (new_step (length t) a d i))"
  shows "\<forall>s\<in>set (step_trace (orchestrate cfg env history trace k)). P s"
proof (rule orchestrate_rule [where I = "\<lambda>t k. \<forall>s\<in>set t. P s"
        and Q = "\<lambda>r. \<forall>s\<in>set (step_trace r). P s"])
qed (insert assms, auto simp: step_trace_conclude)

lemma run_new_step_attempts:
  "attempt_count (run_step cfg env t (new_step n a d i)) \<le> retry_ceiling cfg"
  using run_step_attempts [of cfg env t "new_step n a d i"] by (simp add: new_step_def)


lemmas core_defs = execute_def dispatch_def guardrail_gate_def complete_step_def fail_step_def
  should_retry_def should_halt_def non_progress_def conclude_def new_step_def
  ends_in_respond_def successful_respond_def

subsection \<open>Termination within the step ceiling\<close>



subsection \<open>Retries\<close>

text \<open>
  C2. Every Step of the trace that \<open>Run\<close> returns has an \<open>attempt_count\<close> of at most the
  retry ceiling, for every configuration and all collaborators; and the retries of one
  Step, started from any count, end at a count that is at most the larger of that count
  and the retry ceiling (the count only grows on the way, and a Step starts at 0).
\<close>

theorem retries_bounded:
  "(\<forall>s\<in>set (step_trace (Run cfg env history)). attempt_count s \<le> retry_ceiling cfg)
   \<and> attempt_count (run_step cfg env trace s) \<le> max (attempt_count s) (retry_ceiling cfg)"
proof -
  have "\<forall>s\<in>set (step_trace (Run cfg env history)). attempt_count s \<le> retry_ceiling cfg"
    unfolding Run_def
    by (rule orchestrate_steps) (simp_all add: run_new_step_attempts)
  then show ?thesis
    using run_step_attempts [of cfg env trace s] by blast
qed

theorem retries_bounded_witness:
  "map attempt_count (step_trace (Run \<lparr>step_ceiling = 10, retry_ceiling = 2, time_budget = 100\<rparr>
         \<lparr>planner = (\<lambda>h t. if t = [] then Next_step Retrieve ''look up'' (5::nat) else Done),
          retriever = (\<lambda>i n. if n < 2 then Inl Collaborator_timeout else Inr i),
          tool_invoker = (\<lambda>i n. Inr i),
          verifier = (\<lambda>t i n. Inr i), responder = (\<lambda>t i n. Inr i),
          guardrail_policy = (\<lambda>out s. Allow), validate_input = (\<lambda>a i. True),
          validate_output = (\<lambda>a t out. True), is_deny = (\<lambda>out. False),
          clock = (\<lambda>k. 0), cancelled = (\<lambda>k. False)\<rparr>
         [(''user'', ''What is 2+2?'')])) = [2]
   \<and> map step_status (step_trace (Run \<lparr>step_ceiling = 10, retry_ceiling = 2, time_budget = 100\<rparr>
         \<lparr>planner = (\<lambda>h t. if t = [] then Next_step Retrieve ''look up'' (5::nat) else Done),
          retriever = (\<lambda>i n. if n < 2 then Inl Collaborator_timeout else Inr i),
          tool_invoker = (\<lambda>i n. Inr i),
          verifier = (\<lambda>t i n. Inr i), responder = (\<lambda>t i n. Inr i),
          guardrail_policy = (\<lambda>out s. Allow), validate_input = (\<lambda>a i. True),
          validate_output = (\<lambda>a t out. True), is_deny = (\<lambda>out. False),
          clock = (\<lambda>k. 0), cancelled = (\<lambda>k. False)\<rparr>
         [(''user'', ''What is 2+2?'')])) = [Completed]
   \<and> retry_ceiling \<lparr>step_ceiling = 10, retry_ceiling = 2, time_budget = 100\<rparr> = 2"
proof -
  have t: "step_trace (Run \<lparr>step_ceiling = 10, retry_ceiling = 2, time_budget = 100\<rparr>
         \<lparr>planner = (\<lambda>h t. if t = [] then Next_step Retrieve ''look up'' (5::nat) else Done),
          retriever = (\<lambda>i n. if n < 2 then Inl Collaborator_timeout else Inr i),
          tool_invoker = (\<lambda>i n. Inr i),
          verifier = (\<lambda>t i n. Inr i), responder = (\<lambda>t i n. Inr i),
          guardrail_policy = (\<lambda>out s. Allow), validate_input = (\<lambda>a i. True),
          validate_output = (\<lambda>a t out. True), is_deny = (\<lambda>out. False),
          clock = (\<lambda>k. 0), cancelled = (\<lambda>k. False)\<rparr>
         [(''user'', ''What is 2+2?'')])
     = [\<lparr>seq_index = 0, action_type = Retrieve, step_status = Completed,
         description = ''look up'', input = 5, output_data = Some 5, attempt_count = 2,
         error = None\<rparr>]"
    by (simp add: Run_def orchestrate.simps run_step.simps core_defs)
  show ?thesis
    using retries_bounded [of "\<lparr>step_ceiling = 10, retry_ceiling = 2, time_budget = 100\<rparr>"
         "\<lparr>planner = (\<lambda>h t. if t = [] then Next_step Retrieve ''look up'' (5::nat) else Done),
          retriever = (\<lambda>i n. if n < 2 then Inl Collaborator_timeout else Inr i),
          tool_invoker = (\<lambda>i n. Inr i),
          verifier = (\<lambda>t i n. Inr i), responder = (\<lambda>t i n. Inr i),
          guardrail_policy = (\<lambda>out s. Allow), validate_input = (\<lambda>a i. True),
          validate_output = (\<lambda>a t out. True), is_deny = (\<lambda>out. False),
          clock = (\<lambda>k. 0), cancelled = (\<lambda>k. False)\<rparr>"
         "[(''user'', ''What is 2+2?'')]"]
    by (simp add: t)
qed

subsection \<open>The Guardrail Gate\<close>

text \<open>
  C3. Every \<open>act\<close> or \<open>respond\<close> Step of the returned trace that is \<open>completed\<close> holds an
  output that the guardrail policy accepted when asked about this very Step (as it was
  handed to the Executor, pending and without output): either the policy allowed the
  output the Step holds, or it answered \<open>modify\<close> and the Step holds the replacement.
\<close>

theorem guardrail_before_completed:
  "\<forall>s\<in>set (step_trace (Run cfg env history)).
     (action_type s = Act \<or> action_type s = Respond) \<and> step_status s = Completed \<longrightarrow>
       (\<exists>out. (guardrail_policy env out (s\<lparr>step_status := Pending, output_data := None\<rparr>) = Allow
                \<and> output_data s = Some out)
            \<or> (\<exists>replacement.
                  guardrail_policy env out (s\<lparr>step_status := Pending, output_data := None\<rparr>)
                    = Modify replacement
                  \<and> output_data s = Some replacement))"
  unfolding Run_def
proof (rule orchestrate_steps)
  fix t :: "'a step list" and a d i
  show "(action_type (run_step cfg env t (new_step (length t) a d i)) = Act
          \<or> action_type (run_step cfg env t (new_step (length t) a d i)) = Respond)
        \<and> step_status (run_step cfg env t (new_step (length t) a d i)) = Completed \<longrightarrow>
       (\<exists>out. (guardrail_policy env out
                  ((run_step cfg env t (new_step (length t) a d i))
                     \<lparr>step_status := Pending, output_data := None\<rparr>) = Allow
                \<and> output_data (run_step cfg env t (new_step (length t) a d i)) = Some out)
            \<or> (\<exists>replacement.
                  guardrail_policy env out
                    ((run_step cfg env t (new_step (length t) a d i))
                       \<lparr>step_status := Pending, output_data := None\<rparr>) = Modify replacement
                  \<and> output_data (run_step cfg env t (new_step (length t) a d i)) = Some replacement))"
  proof
    let ?r = "run_step cfg env t (new_step (length t) a d i)"
    assume h: "(action_type ?r = Act \<or> action_type ?r = Respond) \<and> step_status ?r = Completed"
    then have "a = Act \<or> a = Respond"
      by (simp add: run_new_step_action)
    with h show "\<exists>out. (guardrail_policy env out
                  (?r\<lparr>step_status := Pending, output_data := None\<rparr>) = Allow
                \<and> output_data ?r = Some out)
            \<or> (\<exists>replacement.
                  guardrail_policy env out
                    (?r\<lparr>step_status := Pending, output_data := None\<rparr>) = Modify replacement
                  \<and> output_data ?r = Some replacement)"
      by (intro run_new_step_gate) simp_all
  qed
qed simp

theorem guardrail_before_completed_witness:
  "step_trace (Run \<lparr>step_ceiling = 10, retry_ceiling = 2, time_budget = 100\<rparr>
         \<lparr>planner = (\<lambda>h t. if t = [] then Next_step Act ''send'' (5::nat) else Done),
          retriever = (\<lambda>i n. Inr i), tool_invoker = (\<lambda>i n. Inr i),
          verifier = (\<lambda>t i n. Inr i), responder = (\<lambda>t i n. Inr i),
          guardrail_policy = (\<lambda>out s. Modify 7), validate_input = (\<lambda>a i. True),
          validate_output = (\<lambda>a t out. True), is_deny = (\<lambda>out. False),
          clock = (\<lambda>k. 0), cancelled = (\<lambda>k. False)\<rparr>
         [(''user'', ''What is 2+2?'')])
     = [\<lparr>seq_index = 0, action_type = Act, step_status = Completed,
         description = ''send'', input = 5, output_data = Some 7, attempt_count = 0,
         error = None\<rparr>]
   \<and> guardrail_policy
         \<lparr>planner = (\<lambda>h t. if t = [] then Next_step Act ''send'' (5::nat) else Done),
          retriever = (\<lambda>i n. Inr i), tool_invoker = (\<lambda>i n. Inr i),
          verifier = (\<lambda>t i n. Inr i), responder = (\<lambda>t i n. Inr i),
          guardrail_policy = (\<lambda>out s. Modify 7), validate_input = (\<lambda>a i. True),
          validate_output = (\<lambda>a t out. True), is_deny = (\<lambda>out. False),
          clock = (\<lambda>k. 0), cancelled = (\<lambda>k. False)\<rparr>
         5
         \<lparr>seq_index = 0, action_type = Act, step_status = Pending,
          description = ''send'', input = 5, output_data = None, attempt_count = 0,
          error = None\<rparr> = Modify 7"
proof -
  have t: "step_trace (Run \<lparr>step_ceiling = 10, retry_ceiling = 2, time_budget = 100\<rparr>
         \<lparr>planner = (\<lambda>h t. if t = [] then Next_step Act ''send'' (5::nat) else Done),
          retriever = (\<lambda>i n. Inr i), tool_invoker = (\<lambda>i n. Inr i),
          verifier = (\<lambda>t i n. Inr i), responder = (\<lambda>t i n. Inr i),
          guardrail_policy = (\<lambda>out s. Modify 7), validate_input = (\<lambda>a i. True),
          validate_output = (\<lambda>a t out. True), is_deny = (\<lambda>out. False),
          clock = (\<lambda>k. 0), cancelled = (\<lambda>k. False)\<rparr>
         [(''user'', ''What is 2+2?'')])
     = [\<lparr>seq_index = 0, action_type = Act, step_status = Completed,
         description = ''send'', input = 5, output_data = Some 7, attempt_count = 0,
         error = None\<rparr>]"
    by (simp add: Run_def orchestrate.simps run_step.simps core_defs)
  show ?thesis
    using guardrail_before_completed [of "\<lparr>step_ceiling = 10, retry_ceiling = 2, time_budget = 100\<rparr>"
         "\<lparr>planner = (\<lambda>h t. if t = [] then Next_step Act ''send'' (5::nat) else Done),
          retriever = (\<lambda>i n. Inr i), tool_invoker = (\<lambda>i n. Inr i),
          verifier = (\<lambda>t i n. Inr i), responder = (\<lambda>t i n. Inr i),
          guardrail_policy = (\<lambda>out s. Modify 7), validate_input = (\<lambda>a i. True),
          validate_output = (\<lambda>a t out. True), is_deny = (\<lambda>out. False),
          clock = (\<lambda>k. 0), cancelled = (\<lambda>k. False)\<rparr>"
         "[(''user'', ''What is 2+2?'')]"]
    by (simp add: t)
qed

subsection \<open>Done\<close>

lemma asks_Run:
  "asks cfg env history n = Some t \<Longrightarrow>
     Run cfg env history = orchestrate cfg env history t n
     \<and> length t < step_ceiling cfg \<and> \<not> cancelled env n"
proof (induction n arbitrary: t)
  case 0
  then show ?case
    by (simp add: Run_def split: if_splits)
next
  case (Suc n)
  from Suc.prems obtain t0 a d i where
    t0: "asks cfg env history n = Some t0"
    and p: "planner env history t0 = Next_step a d i"
    and np: "\<not> non_progress t0 a i"
    and sh: "should_halt cfg env (t0 @ [run_step cfg env t0 (new_step (length t0) a d i)]) n = None"
    and below: "length t < step_ceiling cfg"
    and nc: "\<not> cancelled env (Suc n)"
    and t: "t = t0 @ [run_step cfg env t0 (new_step (length t0) a d i)]"
    by (auto split: option.splits plan.splits if_splits)
  from Suc.IH [OF t0] have
    r: "Run cfg env history = orchestrate cfg env history t0 n"
    and b0: "length t0 < step_ceiling cfg" and nc0: "\<not> cancelled env n"
    by simp_all
  have "orchestrate cfg env history t0 n = orchestrate cfg env history t (Suc n)"
    using b0 nc0 p np sh unfolding t by (subst orchestrate.simps) simp
  then show ?case
    using r below nc by simp
qed

lemma asks_Done:
  assumes "asks cfg env history n = Some t" "planner env history t = Done"
  shows "Run cfg env history = conclude Planner_done t"
proof -
  from asks_Run [OF assms(1)] have
    r: "Run cfg env history = orchestrate cfg env history t n"
    and b: "length t < step_ceiling cfg" and nc: "\<not> cancelled env n"
    by simp_all
  show ?thesis
    unfolding r using b nc assms(2) by (subst orchestrate.simps) simp
qed

lemma completed_asked:
  fixes env :: "'d collaborators"
  shows "terminal_status (Run cfg env history) = Session_completed \<longrightarrow>
     (\<exists>n. asks cfg env history n = Some (step_trace (Run cfg env history)))
     \<and> planner env history (step_trace (Run cfg env history)) = Done
     \<and> ends_in_respond (step_trace (Run cfg env history))"
  unfolding Run_def
proof (rule orchestrate_rule [where
        I = "\<lambda>t k. length t < step_ceiling cfg \<and> \<not> cancelled env k
                      \<longrightarrow> asks cfg env history k = Some t"
        and Q = "\<lambda>r. terminal_status r = Session_completed \<longrightarrow>
                   (\<exists>n. asks cfg env history n = Some (step_trace r))
                   \<and> planner env history (step_trace r) = Done
                   \<and> ends_in_respond (step_trace r)"])
  show "length ([] :: 'd step list) < step_ceiling cfg \<and> \<not> cancelled env 0
          \<longrightarrow> asks cfg env history 0 = Some []"
    by simp
next
  fix t :: "'d step list" and k a d i
  let ?t = "t @ [run_step cfg env t (new_step (length t) a d i)]"
  assume "length t < step_ceiling cfg \<and> \<not> cancelled env k \<longrightarrow> asks cfg env history k = Some t"
     and "length t < step_ceiling cfg" "\<not> cancelled env k"
     and "planner env history t = Next_step a d i" "\<not> non_progress t a i"
     and "should_halt cfg env ?t k = None"
  then show "length ?t < step_ceiling cfg \<and> \<not> cancelled env (Suc k)
          \<longrightarrow> asks cfg env history (Suc k) = Some ?t"
    by simp
next
  fix t :: "'d step list" and k
  assume "length t < step_ceiling cfg \<and> \<not> cancelled env k \<longrightarrow> asks cfg env history k = Some t"
     and "length t < step_ceiling cfg" "\<not> cancelled env k" "planner env history t = Done"
  then have "asks cfg env history k = Some t"
    by simp
  then show "terminal_status (conclude Planner_done t) = Session_completed \<longrightarrow>
          (\<exists>n. asks cfg env history n = Some (step_trace (conclude Planner_done t)))
          \<and> planner env history (step_trace (conclude Planner_done t)) = Done
          \<and> ends_in_respond (step_trace (conclude Planner_done t))"
    using \<open>planner env history t = Done\<close>
    by (auto simp: conclude_simps step_trace_conclude split: if_splits)
qed (simp_all add: conclude_simps)

text \<open>
  C4. Whenever the loop of a Session asks the Planner (on the trace \<open>t\<close> of the Steps run so
  far) and the Planner answers \<open>Done\<close>, the Session ends there, with \<open>t\<close> as its trace: it is
  \<open>completed\<close> if and only if the last Step of \<open>t\<close> is a \<open>respond\<close> Step that is \<open>completed\<close>, and
  it is \<open>failed\<close> if it is not; in particular it is \<open>failed\<close> when no Step of \<open>t\<close> is a
  successful \<open>respond\<close>. A Session is \<open>completed\<close> in no other way: then the loop asked the
  Planner on the returned trace, the answer was \<open>Done\<close>, and the last Step is a successful
  \<open>respond\<close>.
\<close>

theorem done_needs_respond:
  "(asks cfg env history n = Some t \<and> planner env history t = Done \<longrightarrow>
        step_trace (Run cfg env history) = t
      \<and> (terminal_status (Run cfg env history) = Session_completed
           \<longleftrightarrow> t \<noteq> [] \<and> action_type (last t) = Respond \<and> step_status (last t) = Completed)
      \<and> (\<not> (t \<noteq> [] \<and> action_type (last t) = Respond \<and> step_status (last t) = Completed)
           \<longrightarrow> terminal_status (Run cfg env history) = Session_failed)
      \<and> (\<not> (\<exists>s\<in>set t. action_type s = Respond \<and> step_status s = Completed)
           \<longrightarrow> terminal_status (Run cfg env history) = Session_failed))
   \<and> (terminal_status (Run cfg env history) = Session_completed \<longrightarrow>
        (\<exists>m. asks cfg env history m = Some (step_trace (Run cfg env history)))
        \<and> planner env history (step_trace (Run cfg env history)) = Done
        \<and> step_trace (Run cfg env history) \<noteq> []
        \<and> action_type (last (step_trace (Run cfg env history))) = Respond
        \<and> step_status (last (step_trace (Run cfg env history))) = Completed)"
proof -
  have answered: "asks cfg env history n = Some t \<and> planner env history t = Done \<longrightarrow>
        step_trace (Run cfg env history) = t
      \<and> (terminal_status (Run cfg env history) = Session_completed
           \<longleftrightarrow> t \<noteq> [] \<and> action_type (last t) = Respond \<and> step_status (last t) = Completed)
      \<and> (\<not> (t \<noteq> [] \<and> action_type (last t) = Respond \<and> step_status (last t) = Completed)
           \<longrightarrow> terminal_status (Run cfg env history) = Session_failed)
      \<and> (\<not> (\<exists>s\<in>set t. action_type s = Respond \<and> step_status s = Completed)
           \<longrightarrow> terminal_status (Run cfg env history) = Session_failed)"
  proof
    assume a: "asks cfg env history n = Some t \<and> planner env history t = Done"
    have r: "Run cfg env history = conclude Planner_done t"
      using asks_Done a by blast
    have m: "t \<noteq> [] \<and> action_type (last t) = Respond \<and> step_status (last t) = Completed
             \<Longrightarrow> \<exists>s\<in>set t. action_type s = Respond \<and> step_status s = Completed"
      using last_in_set [of t] by blast
    show "step_trace (Run cfg env history) = t
      \<and> (terminal_status (Run cfg env history) = Session_completed
           \<longleftrightarrow> t \<noteq> [] \<and> action_type (last t) = Respond \<and> step_status (last t) = Completed)
      \<and> (\<not> (t \<noteq> [] \<and> action_type (last t) = Respond \<and> step_status (last t) = Completed)
           \<longrightarrow> terminal_status (Run cfg env history) = Session_failed)
      \<and> (\<not> (\<exists>s\<in>set t. action_type s = Respond \<and> step_status s = Completed)
           \<longrightarrow> terminal_status (Run cfg env history) = Session_failed)"
      unfolding r using m
      by (auto simp: conclude_simps step_trace_conclude ends_in_respond_def successful_respond_def)
  qed
  have no_other: "terminal_status (Run cfg env history) = Session_completed \<longrightarrow>
        (\<exists>m. asks cfg env history m = Some (step_trace (Run cfg env history)))
        \<and> planner env history (step_trace (Run cfg env history)) = Done
        \<and> step_trace (Run cfg env history) \<noteq> []
        \<and> action_type (last (step_trace (Run cfg env history))) = Respond
        \<and> step_status (last (step_trace (Run cfg env history))) = Completed"
    using completed_asked [of cfg env history]
    by (simp add: ends_in_respond_def successful_respond_def)
  show ?thesis
    using answered no_other by blast
qed

theorem done_needs_respond_witness:
  "asks \<lparr>step_ceiling = 10, retry_ceiling = 2, time_budget = 100\<rparr>
        \<lparr>planner = (\<lambda>h t. case t of [] \<Rightarrow> Next_step Plan ''plan'' (0::nat)
                           | [p] \<Rightarrow> Next_step Respond ''answer'' 4 | _ \<Rightarrow> Done),
          retriever = (\<lambda>i n. Inr i), tool_invoker = (\<lambda>i n. Inr i),
          verifier = (\<lambda>t i n. Inr i), responder = (\<lambda>t i n. Inr i),
          guardrail_policy = (\<lambda>out s. Allow), validate_input = (\<lambda>a i. True),
          validate_output = (\<lambda>a t out. True), is_deny = (\<lambda>out. False),
          clock = (\<lambda>k. 0), cancelled = (\<lambda>k. False)\<rparr>
        [(''user'', ''What is 2+2?'')] 2
     = Some [\<lparr>seq_index = 0, action_type = Plan, step_status = Completed,
            description = ''plan'', input = 0, output_data = Some 0, attempt_count = 0,
            error = None\<rparr>,
           \<lparr>seq_index = 1, action_type = Respond, step_status = Completed,
            description = ''answer'', input = 4, output_data = Some 4, attempt_count = 0,
            error = None\<rparr>]
   \<and> planner \<lparr>planner = (\<lambda>h t. case t of [] \<Rightarrow> Next_step Plan ''plan'' (0::nat)
                           | [p] \<Rightarrow> Next_step Respond ''answer'' 4 | _ \<Rightarrow> Done),
          retriever = (\<lambda>i n. Inr i), tool_invoker = (\<lambda>i n. Inr i),
          verifier = (\<lambda>t i n. Inr i), responder = (\<lambda>t i n. Inr i),
          guardrail_policy = (\<lambda>out s. Allow), validate_input = (\<lambda>a i. True),
          validate_output = (\<lambda>a t out. True), is_deny = (\<lambda>out. False),
          clock = (\<lambda>k. 0), cancelled = (\<lambda>k. False)\<rparr> [(''user'', ''What is 2+2?'')]
        [\<lparr>seq_index = 0, action_type = Plan, step_status = Completed,
            description = ''plan'', input = 0, output_data = Some 0, attempt_count = 0,
            error = None\<rparr>,
           \<lparr>seq_index = 1, action_type = Respond, step_status = Completed,
            description = ''answer'', input = 4, output_data = Some 4, attempt_count = 0,
            error = None\<rparr>] = Done
   \<and> terminal_status (Run \<lparr>step_ceiling = 10, retry_ceiling = 2, time_budget = 100\<rparr>
        \<lparr>planner = (\<lambda>h t. case t of [] \<Rightarrow> Next_step Plan ''plan'' (0::nat)
                           | [p] \<Rightarrow> Next_step Respond ''answer'' 4 | _ \<Rightarrow> Done),
          retriever = (\<lambda>i n. Inr i), tool_invoker = (\<lambda>i n. Inr i),
          verifier = (\<lambda>t i n. Inr i), responder = (\<lambda>t i n. Inr i),
          guardrail_policy = (\<lambda>out s. Allow), validate_input = (\<lambda>a i. True),
          validate_output = (\<lambda>a t out. True), is_deny = (\<lambda>out. False),
          clock = (\<lambda>k. 0), cancelled = (\<lambda>k. False)\<rparr>
        [(''user'', ''What is 2+2?'')]) = Session_completed
   \<and> final_response (Run \<lparr>step_ceiling = 10, retry_ceiling = 2, time_budget = 100\<rparr>
        \<lparr>planner = (\<lambda>h t. case t of [] \<Rightarrow> Next_step Plan ''plan'' (0::nat)
                           | [p] \<Rightarrow> Next_step Respond ''answer'' 4 | _ \<Rightarrow> Done),
          retriever = (\<lambda>i n. Inr i), tool_invoker = (\<lambda>i n. Inr i),
          verifier = (\<lambda>t i n. Inr i), responder = (\<lambda>t i n. Inr i),
          guardrail_policy = (\<lambda>out s. Allow), validate_input = (\<lambda>a i. True),
          validate_output = (\<lambda>a t out. True), is_deny = (\<lambda>out. False),
          clock = (\<lambda>k. 0), cancelled = (\<lambda>k. False)\<rparr>
        [(''user'', ''What is 2+2?'')]) = Some 4
   \<and> asks \<lparr>step_ceiling = 10, retry_ceiling = 2, time_budget = 100\<rparr>
        \<lparr>planner = (\<lambda>h t. Done :: nat plan),
          retriever = (\<lambda>i n. Inr i), tool_invoker = (\<lambda>i n. Inr i),
          verifier = (\<lambda>t i n. Inr i), responder = (\<lambda>t i n. Inr i),
          guardrail_policy = (\<lambda>out s. Allow), validate_input = (\<lambda>a i. True),
          validate_output = (\<lambda>a t out. True), is_deny = (\<lambda>out. False),
          clock = (\<lambda>k. 0), cancelled = (\<lambda>k. False)\<rparr>
        [(''user'', ''What is 2+2?'')] 0 = Some []
   \<and> planner \<lparr>planner = (\<lambda>h t. Done :: nat plan),
          retriever = (\<lambda>i n. Inr i), tool_invoker = (\<lambda>i n. Inr i),
          verifier = (\<lambda>t i n. Inr i), responder = (\<lambda>t i n. Inr i),
          guardrail_policy = (\<lambda>out s. Allow), validate_input = (\<lambda>a i. True),
          validate_output = (\<lambda>a t out. True), is_deny = (\<lambda>out. False),
          clock = (\<lambda>k. 0), cancelled = (\<lambda>k. False)\<rparr> [(''user'', ''What is 2+2?'')] [] = Done
   \<and> terminal_status (Run \<lparr>step_ceiling = 10, retry_ceiling = 2, time_budget = 100\<rparr>
        \<lparr>planner = (\<lambda>h t. Done :: nat plan),
          retriever = (\<lambda>i n. Inr i), tool_invoker = (\<lambda>i n. Inr i),
          verifier = (\<lambda>t i n. Inr i), responder = (\<lambda>t i n. Inr i),
          guardrail_policy = (\<lambda>out s. Allow), validate_input = (\<lambda>a i. True),
          validate_output = (\<lambda>a t out. True), is_deny = (\<lambda>out. False),
          clock = (\<lambda>k. 0), cancelled = (\<lambda>k. False)\<rparr>
        [(''user'', ''What is 2+2?'')]) = Session_failed"
proof -
  let ?cfg = "\<lparr>step_ceiling = 10, retry_ceiling = 2, time_budget = 100\<rparr>"
  let ?envA = "\<lparr>planner = (\<lambda>h t. case t of [] \<Rightarrow> Next_step Plan ''plan'' (0::nat)
                           | [p] \<Rightarrow> Next_step Respond ''answer'' 4 | _ \<Rightarrow> Done),
          retriever = (\<lambda>i n. Inr i), tool_invoker = (\<lambda>i n. Inr i),
          verifier = (\<lambda>t i n. Inr i), responder = (\<lambda>t i n. Inr i),
          guardrail_policy = (\<lambda>out s. Allow), validate_input = (\<lambda>a i. True),
          validate_output = (\<lambda>a t out. True), is_deny = (\<lambda>out. False),
          clock = (\<lambda>k. 0), cancelled = (\<lambda>k. False)\<rparr>"
  let ?envD = "\<lparr>planner = (\<lambda>h t. Done :: nat plan),
          retriever = (\<lambda>i n. Inr i), tool_invoker = (\<lambda>i n. Inr i),
          verifier = (\<lambda>t i n. Inr i), responder = (\<lambda>t i n. Inr i),
          guardrail_policy = (\<lambda>out s. Allow), validate_input = (\<lambda>a i. True),
          validate_output = (\<lambda>a t out. True), is_deny = (\<lambda>out. False),
          clock = (\<lambda>k. 0), cancelled = (\<lambda>k. False)\<rparr>"
  let ?t = "[\<lparr>seq_index = 0, action_type = Plan, step_status = Completed,
            description = ''plan'', input = 0, output_data = Some 0, attempt_count = 0,
            error = None\<rparr>,
           \<lparr>seq_index = 1, action_type = Respond, step_status = Completed,
            description = ''answer'', input = 4, output_data = Some 4, attempt_count = 0,
            error = None\<rparr>]"
  have a2: "asks ?cfg ?envA [(''user'', ''What is 2+2?'')] (Suc (Suc 0)) = Some ?t"
    by (simp add: run_step.simps core_defs)
  then have a: "asks ?cfg ?envA [(''user'', ''What is 2+2?'')] 2 = Some ?t"
    by (simp add: numeral_2_eq_2)
  have p: "planner ?envA [(''user'', ''What is 2+2?'')] ?t = Done"
    by simp
  have l: "?t \<noteq> [] \<and> action_type (last ?t) = Respond \<and> step_status (last ?t) = Completed"
    by simp
  have d: "asks ?cfg ?envD [(''user'', ''What is 2+2?'')] 0 = Some []"
          "planner ?envD [(''user'', ''What is 2+2?'')] [] = Done"
    by simp_all
  have f: "final_response (Run ?cfg ?envA [(''user'', ''What is 2+2?'')]) = Some 4"
    unfolding asks_Done [OF a p] by (simp add: core_defs)
  note tA = done_needs_respond [of ?cfg ?envA "[(''user'', ''What is 2+2?'')]" 2 ?t, THEN conjunct1]
  note tD = done_needs_respond [of ?cfg ?envD "[(''user'', ''What is 2+2?'')]" 0 "[]", THEN conjunct1]
  have cA: "terminal_status (Run ?cfg ?envA [(''user'', ''What is 2+2?'')]) = Session_completed"
    using tA a p l by blast
  have cD: "terminal_status (Run ?cfg ?envD [(''user'', ''What is 2+2?'')]) = Session_failed"
    using tD d by simp
  show ?thesis
    using a p f d cA cD by simp
qed

end
